theory Spec2Isabelle
  imports Complex_Main "HOL-Library.Log_Nat"
begin

section \<open>The grayscale line-following pipeline of \<^verbatim>\<open>picarx/concurrent.py\<close>\<close>

text \<open>
  The theory embeds the pipeline of \<^verbatim>\<open>src/picarx/concurrent.py\<close>: the latest-message
  \<^verbatim>\<open>Bus\<close>, the \<^verbatim>\<open>GrayscaleInterpreter\<close>, the \<^verbatim>\<open>PDController\<close>, the recovery
  maneuver and one round of the loop of the interpreter and of the controller.

  Conventions of the embedding:
  \<^item> A Python float is a real number (type \<^typ>\<open>real\<close>); infinities and NaN are outside
    the model. The literals \<^verbatim>\<open>1e-6\<close> and \<^verbatim>\<open>1e-9\<close> are \<open>1 / 10 ^ 6\<close> and
    \<open>1 / 10 ^ 9\<close>. The arithmetic of \<^verbatim>\<open>_update_baseline\<close> is rounded to double
    precision, operation by operation (\<open>dbl_round\<close> below), because whether the new
    baseline lies between the old one and the reading depends on the rounding. Elsewhere
    the arithmetic is exact.
  \<^item> A Python list of readings is a \<^typ>\<open>real list\<close>; \<^verbatim>\<open>None\<close> is \<^const>\<open>None\<close>.
  \<^item> Every \<^verbatim>\<open>raise\<close> is a value of the type \<open>error\<close>, returned as \<^const>\<open>Inl\<close>.
  \<^item> The robot \<^verbatim>\<open>px\<close> and the clock are a record \<open>world\<close>: the actuator calls are
    appended to a trace, and the time at which each is issued to the list \<open>stamps\<close>;
    \<^verbatim>\<open>sleep\<close> advances the clock, and everything else takes no time. What the program
    reads from outside (the stop event, the ADC) is a function of the clock, the record
    \<open>env\<close>.
  \<^item> The reader-writer lock of the \<^verbatim>\<open>Bus\<close> is not modelled: the operations of a bus
    are taken one at a time.
\<close>

subsection \<open>User parameters\<close>

definition FWD_POWER :: real where "FWD_POWER = 20"
definition REV_POWER :: real where "REV_POWER = 30"
definition SENSOR_DT :: real where "SENSOR_DT = 0.02"
definition INTERP_DT :: real where "INTERP_DT = 0.02"
definition CONTROL_DT :: real where "CONTROL_DT = 0.02"
definition MAX_ANGLE :: real where "MAX_ANGLE = 30.0"
definition THRESH :: real where "THRESH = 850"
definition RECOVER_MAX_TIME :: real where "RECOVER_MAX_TIME = 2.5"
definition RECOVER_DT :: real where "RECOVER_DT = 0.01"
definition RECOVER_STEER :: real where "RECOVER_STEER = 0"
definition RESPONSE :: real where "RESPONSE = 1.0"
definition DAMPING :: real where "DAMPING = 0.8"
definition SENSITIVITY :: real where "SENSITIVITY = 120"
definition POLARITY :: string where "POLARITY = ''dark''"
definition DEADBAND :: real where "DEADBAND = 0.06"
definition ALPHA :: real where "ALPHA = 0.30"

subsection \<open>Errors and strings\<close>

text \<open>
  \<open>PolarityError\<close> is the \<^verbatim>\<open>ValueError("polarity must be 'dark' or 'light'")\<close> of the
  constructor, \<open>UnpackError\<close> the \<^verbatim>\<open>ValueError\<close> of unpacking a list that has not
  exactly three elements into \<^verbatim>\<open>L, M, R\<close>, \<open>IndexError\<close> a list index out of range and
  \<open>ZeroDivisionError\<close> a float division by zero.
\<close>

datatype error = PolarityError | UnpackError | IndexError | ZeroDivisionError

text \<open>
  \<^verbatim>\<open>str.lower()\<close> on the ASCII letters: \<^verbatim>\<open>A\<close> .. \<^verbatim>\<open>Z\<close> (codes 65 .. 90) move to
  \<^verbatim>\<open>a\<close> .. \<^verbatim>\<open>z\<close>, every other character is left as it is.
\<close>

definition lower_char :: "char \<Rightarrow> char" where
  "lower_char c =
     (let n = (of_char c :: nat) in if 65 \<le> n \<and> n \<le> 90 then char_of (n + 32) else c)"

definition lower :: "string \<Rightarrow> string" where
  "lower s = map lower_char s"

subsection \<open>Double precision\<close>

text \<open>
  \<open>pow2 k\<close> is \<open>2\<close> to the power \<open>k\<close>, for an integer \<open>k\<close>. For \<open>x \<noteq> 0\<close>,
  \<open>dbl_exponent x\<close> is the integer \<open>e\<close> with \<open>pow2 e \<le> \<bar>x\<bar> < pow2 (e + 1)\<close>, computed from
  the bit length of the integer part of \<open>\<bar>x\<bar>\<close> (of \<open>1 / \<bar>x\<bar>\<close> when \<open>\<bar>x\<bar> < 1\<close>).
\<close>

definition pow2 :: "int \<Rightarrow> real" where
  "pow2 k = (if 0 \<le> k then 2 ^ nat k else 1 / 2 ^ nat (- k))"

definition dbl_exponent :: "real \<Rightarrow> int" where
  "dbl_exponent x =
     (if 1 \<le> \<bar>x\<bar> then bitlen \<lfloor>\<bar>x\<bar>\<rfloor> - 1 else - bitlen (\<lceil>1 / \<bar>x\<bar>\<rceil> - 1))"

text \<open>The integer nearest to \<open>y\<close>; of two integers equally near, the even one.\<close>

definition round_half_even :: "real \<Rightarrow> int" where
  "round_half_even y =
     (let f = \<lfloor>y\<rfloor>; r = y - of_int f in
      if r < 1 / 2 then f else if 1 / 2 < r then f + 1 else if even f then f else f + 1)"

text \<open>
  The result of a float operation whose exact result is \<open>x\<close>: the double nearest to
  \<open>x\<close>, ties to even (IEEE 754 binary64, the arithmetic of a Python float). A double is
  an integer of at most 53 bits times a power of two, \<open>pow2 (- 1074)\<close> at the least (the
  subnormal numbers). Overflow is not modelled: the code gives \<^verbatim>\<open>inf\<close> where
  \<open>\<bar>x\<bar>\<close> rounds to \<open>pow2 1024\<close> or more, and \<open>dbl_round\<close> stands for the float operation
  below that only.
\<close>

definition dbl_round :: "real \<Rightarrow> real" where
  "dbl_round x =
     (if x = 0 then 0
      else (let q = max (dbl_exponent x - 52) (- 1074)
            in of_int (round_half_even (x / pow2 q)) * pow2 q))"

subsection \<open>The Bus\<close>

record 'm Bus =
  message :: "'m option"

definition Bus_init :: "'m option \<Rightarrow> 'm Bus" where
  "Bus_init initial_message = \<lparr>message = initial_message\<rparr>"

definition Bus_write :: "'m Bus \<Rightarrow> 'm option \<Rightarrow> 'm Bus" where
  "Bus_write b msg = b\<lparr>message := msg\<rparr>"

definition Bus_read :: "'m Bus \<Rightarrow> 'm option" where
  "Bus_read b = message b"

text \<open>The message structures (the field \<^verbatim>\<open>t\<close> of both is the time stamp).\<close>

datatype ADCMessage = ADCMessage (adc_t: real) (adc_vals: "real list")

datatype OffsetMessage = OffsetMessage (msg_t: real) (msg_offset: "real option")

subsection \<open>The interpreter\<close>

record GrayscaleInterpreter =
  sensitivity :: real
  polarity :: string
  auto_baseline :: bool
  alpha :: real
  baseline :: "real list option"
  thresh :: real

definition GrayscaleInterpreter_init ::
  "real \<Rightarrow> string \<Rightarrow> bool \<Rightarrow> real \<Rightarrow> real \<Rightarrow> error + GrayscaleInterpreter" where
  "GrayscaleInterpreter_init sens pol auto_bl a th =
     (let p = lower pol in
      if p \<noteq> ''dark'' \<and> p \<noteq> ''light'' then Inl PolarityError
      else Inr \<lparr>sensitivity = sens, polarity = p, auto_baseline = auto_bl, alpha = a,
                baseline = None, thresh = th\<rparr>)"

text \<open>
  One round of the loop \<^verbatim>\<open>for i in range(3)\<close> of \<^verbatim>\<open>_update_baseline\<close>: reading
  \<^verbatim>\<open>self.baseline[i]\<close> or \<^verbatim>\<open>v[i]\<close> out of range raises. The right-hand side
  \<^verbatim>\<open>(1 - self.alpha) * self.baseline[i] + self.alpha * float(v[i])\<close> is four float
  operations, each rounded: the difference, the two products and the sum. The operands
  are floats already, so \<^verbatim>\<open>float(v[i])\<close> is \<^verbatim>\<open>v[i]\<close>.
\<close>

definition baseline_step :: "real \<Rightarrow> real list \<Rightarrow> nat \<Rightarrow> real list \<Rightarrow> error + real list" where
  "baseline_step a v i b =
     (if i < length b \<and> i < length v
      then Inr (b[i := dbl_round (dbl_round (dbl_round (1 - a) * b ! i) + dbl_round (a * v ! i))])
      else Inl IndexError)"

fun baseline_loop :: "real \<Rightarrow> real list \<Rightarrow> nat list \<Rightarrow> real list \<Rightarrow> error + real list" where
  "baseline_loop a v [] b = Inr b"
| "baseline_loop a v (i # is) b =
     (case baseline_step a v i b of Inl e \<Rightarrow> Inl e | Inr b' \<Rightarrow> baseline_loop a v is b')"

definition update_baseline :: "GrayscaleInterpreter \<Rightarrow> real list \<Rightarrow> error + GrayscaleInterpreter" where
  "update_baseline s v =
     (case baseline s of
        None \<Rightarrow> Inr (s\<lparr>baseline := Some v\<rparr>)
      | Some b \<Rightarrow>
          (case baseline_loop (alpha s) v [0, 1, 2] b of
             Inl e \<Rightarrow> Inl e
           | Inr b' \<Rightarrow> Inr (s\<lparr>baseline := Some b'\<rparr>)))"

text \<open>
  \<^verbatim>\<open>process\<close> returns the offset (or \<^const>\<open>None\<close>, line lost) and the interpreter after
  the call, whose baseline may have moved.
\<close>

definition process ::
  "GrayscaleInterpreter \<Rightarrow> real list \<Rightarrow> error + (real option \<times> GrayscaleInterpreter)" where
  "process s vals =
     (case vals of
        [L, M, R] \<Rightarrow>
          (case (if auto_baseline s then update_baseline s [L, M, R] else Inr s) of
             Inl e \<Rightarrow> Inl e
           | Inr s1 \<Rightarrow>
               (let dLM = \<bar>L - M\<bar>;
                    dMR = \<bar>M - R\<bar>;
                    edge_ok = (max dLM dMR \<ge> sensitivity s1);
                    sL = (if polarity s1 = ''dark'' then max 0 (thresh s1 - L)
                          else max 0 (L - thresh s1));
                    sM = (if polarity s1 = ''dark'' then max 0 (thresh s1 - M)
                          else max 0 (M - thresh s1));
                    sR = (if polarity s1 = ''dark'' then max 0 (thresh s1 - R)
                          else max 0 (R - thresh s1));
                    total = sL + sM + sR
                in
                  if total < 1 / 10 ^ 6 \<and> \<not> edge_ok then Inr (None, s1)
                  else if \<not> edge_ok \<and> max (max sL sM) sR < sensitivity s1 then Inr (Some 0, s1)
                  else
                    (let centroid = (- 1 * sL + 0 * sM + 1 * sR) / (total + 1 / 10 ^ 9);
                         offset = centroid;
                         offset = (if offset > 1 then 1 else offset);
                         offset = (if offset < - 1 then - 1 else offset)
                     in Inr (Some offset, s1))))
      | _ \<Rightarrow> Inl UnpackError)"

text \<open>What the caller of \<^verbatim>\<open>process\<close> gets: the returned offset, or the exception.\<close>

definition process_returns :: "GrayscaleInterpreter \<Rightarrow> real list \<Rightarrow> error + real option" where
  "process_returns s vals = map_sum id fst (process s vals)"

subsection \<open>The controller\<close>

record PDController =
  max_angle :: real
  dt :: real
  Kp :: real
  Kd :: real
  prev_error :: real
  has_prev :: bool

definition PDController_init :: "real \<Rightarrow> real \<Rightarrow> real \<Rightarrow> real \<Rightarrow> PDController" where
  "PDController_init ma d response damping =
     \<lparr>max_angle = ma, dt = d, Kp = ma * response, Kd = (ma * response) * d * damping,
      prev_error = 0, has_prev = False\<rparr>"

definition reset :: "PDController \<Rightarrow> PDController" where
  "reset c = c\<lparr>prev_error := 0, has_prev := False\<rparr>"

subsection \<open>The robot, the clock and the environment\<close>

text \<open>
  The calls on \<^verbatim>\<open>px\<close> that command an actuator are recorded in the order in which
  they are issued (the field \<open>trace\<close>), each with the time on the clock when it is issued
  (the field \<open>stamps\<close>, as long as the trace). \<^verbatim>\<open>print\<close> is left out.
\<close>

datatype action = Stop | SetDirServoAngle real | Forward real | Backward real

record world =
  clock :: real
  trace :: "action list"
  stamps :: "real list"

text \<open>
  \<open>stop_is_set e t\<close> is \<^verbatim>\<open>stop_event.is_set()\<close> at time \<open>t\<close>, and
  \<open>get_grayscale_data e t\<close> the three channels \<^verbatim>\<open>px.get_grayscale_data()\<close> reads at
  time \<open>t\<close>.
\<close>

record env =
  stop_is_set :: "real \<Rightarrow> bool"
  get_grayscale_data :: "real \<Rightarrow> real \<times> real \<times> real"

definition px_stop :: "world \<Rightarrow> world" where
  "px_stop w = w\<lparr>trace := trace w @ [Stop], stamps := stamps w @ [clock w]\<rparr>"

definition set_dir_servo_angle :: "real \<Rightarrow> world \<Rightarrow> world" where
  "set_dir_servo_angle angle w =
     w\<lparr>trace := trace w @ [SetDirServoAngle angle], stamps := stamps w @ [clock w]\<rparr>"

definition forward :: "real \<Rightarrow> world \<Rightarrow> world" where
  "forward pw w = w\<lparr>trace := trace w @ [Forward pw], stamps := stamps w @ [clock w]\<rparr>"

definition backward :: "real \<Rightarrow> world \<Rightarrow> world" where
  "backward pw w = w\<lparr>trace := trace w @ [Backward pw], stamps := stamps w @ [clock w]\<rparr>"

definition sleep :: "real \<Rightarrow> world \<Rightarrow> world" where
  "sleep d w = w\<lparr>clock := clock w + d\<rparr>"

definition control ::
  "PDController \<Rightarrow> real option \<Rightarrow> world \<Rightarrow> error + (real option \<times> PDController \<times> world)" where
  "control c offset w =
     (case offset of
        None \<Rightarrow> Inr (None, c, w)
      | Some e \<Rightarrow>
          (case (if \<not> has_prev c then Inr (0, c\<lparr>prev_error := e, has_prev := True\<rparr>)
                 else if dt c = 0 then Inl ZeroDivisionError
                 else Inr ((e - prev_error c) / dt c, c\<lparr>prev_error := e\<rparr>)) of
             Inl err \<Rightarrow> Inl err
           | Inr (de, c1) \<Rightarrow>
               (let angle = Kp c1 * e + Kd c1 * de;
                    angle = (if angle > max_angle c1 then max_angle c1 else angle);
                    angle = (if angle < - max_angle c1 then - max_angle c1 else angle)
                in Inr (Some angle, c1, set_dir_servo_angle angle w))))"

subsection \<open>Recovery\<close>

definition line_seen_thresh :: "real \<times> real \<times> real \<Rightarrow> bool" where
  "line_seen_thresh vals =
     (case vals of (L, M, R) \<Rightarrow>
        if lower POLARITY = ''dark'' then L < THRESH \<or> M < THRESH \<or> R < THRESH
        else L > THRESH \<or> M > THRESH \<or> R > THRESH)"

text \<open>
  The poll loop of \<^verbatim>\<open>recover_reverse_until_line\<close>; \<open>t0\<close> is the time read before the
  loop. Each round that does not leave the loop sleeps \<^verbatim>\<open>RECOVER_DT\<close>.
\<close>

function recover_loop :: "env \<Rightarrow> real \<Rightarrow> world \<Rightarrow> world" where
  "recover_loop e t0 w =
     (if stop_is_set e (clock w) then w
      else if line_seen_thresh (get_grayscale_data e (clock w)) then w
      else if clock w - t0 > RECOVER_MAX_TIME then w
      else recover_loop e t0 (sleep RECOVER_DT w))"
  by pat_completeness auto
termination
proof (relation "measure (\<lambda>(e, t0, w). nat (\<lfloor>(t0 + RECOVER_MAX_TIME - clock w) / RECOVER_DT\<rfloor> + 1))")
  show "wf (measure (\<lambda>(e, t0, w). nat (\<lfloor>(t0 + RECOVER_MAX_TIME - clock w) / RECOVER_DT\<rfloor> + 1)))"
    by simp
next
  fix e :: env and t0 :: real and w :: world
  assume "\<not> clock w - t0 > RECOVER_MAX_TIME"
  then have nonneg: "0 \<le> (t0 + RECOVER_MAX_TIME - clock w) / RECOVER_DT"
    by (simp add: RECOVER_DT_def)
  have step: "(t0 + RECOVER_MAX_TIME - clock (sleep RECOVER_DT w)) / RECOVER_DT
      = (t0 + RECOVER_MAX_TIME - clock w) / RECOVER_DT - 1"
    by (simp add: sleep_def RECOVER_DT_def field_simps)
  have "0 \<le> \<lfloor>(t0 + RECOVER_MAX_TIME - clock w) / RECOVER_DT\<rfloor>"
    using nonneg by simp
  then show "((e, t0, sleep RECOVER_DT w), (e, t0, w))
      \<in> measure (\<lambda>(e, t0, w). nat (\<lfloor>(t0 + RECOVER_MAX_TIME - clock w) / RECOVER_DT\<rfloor> + 1))"
    by (simp add: step)
qed

declare recover_loop.simps [simp del]

definition recover_reverse_until_line :: "env \<Rightarrow> world \<Rightarrow> world" where
  "recover_reverse_until_line e w =
     (let w = px_stop w;
          w = sleep 0.15 w;
          w = set_dir_servo_angle RECOVER_STEER w;
          w = backward REV_POWER w;
          t0 = clock w;
          w = recover_loop e t0 w;
          w = px_stop w
      in sleep 0.1 w)"

subsection \<open>The loop bodies of the threads\<close>

text \<open>
  One round of the loop of \<^verbatim>\<open>interpreter_thread_fn\<close>. Its state is the interpreter,
  the local \<^verbatim>\<open>last_t\<close>, the offset bus it writes and the world (for the clock).
\<close>

definition interpreter_cycle ::
  "ADCMessage Bus \<Rightarrow> GrayscaleInterpreter \<times> real option \<times> OffsetMessage Bus \<times> world
     \<Rightarrow> error + (GrayscaleInterpreter \<times> real option \<times> OffsetMessage Bus \<times> world)" where
  "interpreter_cycle adc_bus st =
     (case st of (interp, last_t, offset_bus, w) \<Rightarrow>
        (case Bus_read adc_bus of
           None \<Rightarrow> Inr (interp, last_t, offset_bus, sleep INTERP_DT w)
         | Some msg \<Rightarrow>
             if last_t \<noteq> None \<and> Some (adc_t msg) = last_t
             then Inr (interp, last_t, offset_bus, sleep INTERP_DT w)
             else
               (case process interp (adc_vals msg) of
                  Inl err \<Rightarrow> Inl err
                | Inr (offset, interp') \<Rightarrow>
                    Inr (interp', Some (adc_t msg),
                         Bus_write offset_bus (Some (OffsetMessage (clock w) offset)),
                         sleep INTERP_DT w))))"

text \<open>
  One round of the loop of \<^verbatim>\<open>controller_thread_fn\<close>. Its state is the world, the
  controller and the local \<^verbatim>\<open>prev_offset\<close>.
\<close>

definition controller_cycle ::
  "env \<Rightarrow> OffsetMessage Bus \<Rightarrow> world \<times> PDController \<times> real
     \<Rightarrow> error + (world \<times> PDController \<times> real)" where
  "controller_cycle e offset_bus st =
     (case st of (w, controller, prev_offset) \<Rightarrow>
        (case Bus_read offset_bus of
           None \<Rightarrow> Inr (sleep CONTROL_DT (set_dir_servo_angle 0 (px_stop w)), controller, prev_offset)
         | Some msg \<Rightarrow>
             (case msg_offset msg of
                None \<Rightarrow>
                  (let w = px_stop w;
                       w = recover_reverse_until_line e w;
                       controller = reset controller;
                       prev_offset = 0
                   in Inr (sleep CONTROL_DT w, controller, prev_offset))
              | Some offset \<Rightarrow>
                  (let offset = (if \<bar>offset\<bar> < DEADBAND then 0 else offset);
                       offset = ALPHA * offset + (1 - ALPHA) * prev_offset;
                       prev_offset = offset
                   in
                     (case control controller (Some offset) w of
                        Inl err \<Rightarrow> Inl err
                      | Inr (None, c, w) \<Rightarrow> Inr (sleep CONTROL_DT (px_stop w), c, prev_offset)
                      | Inr (Some angle, c, w) \<Rightarrow>
                          Inr (sleep CONTROL_DT (forward FWD_POWER w), c, prev_offset))))))"

subsection \<open>The steps of the interpreter as the specification words them\<close>

text \<open>
  The specification gives the interpreter's cycle in steps: the strength of a channel
  (step 3), the edge test (step 4), and the published offset (steps 5 to 7), with
  \<open>\<epsilon> = 1 / 10 ^ 9\<close> and the tolerance \<open>1 / 10 ^ 6\<close> of the code. These definitions follow
  the specification; \<open>process\<close> above follows the code.
\<close>

definition spec_strength :: "string \<Rightarrow> real \<Rightarrow> real \<Rightarrow> real" where
  "spec_strength pol T x = (if pol = ''dark'' then max 0 (T - x) else max 0 (x - T))"

definition spec_edge_detected :: "real \<Rightarrow> real \<Rightarrow> real \<Rightarrow> real \<Rightarrow> bool" where
  "spec_edge_detected sens L M R = (max \<bar>L - M\<bar> \<bar>M - R\<bar> \<ge> sens)"

definition spec_clamp :: "real \<Rightarrow> real" where
  "spec_clamp c = (if (if c > 1 then 1 else c) < - 1 then - 1 else (if c > 1 then 1 else c))"

definition spec_centroid :: "string \<Rightarrow> real \<Rightarrow> real \<Rightarrow> real \<Rightarrow> real \<Rightarrow> real" where
  "spec_centroid pol T L M R =
     (- 1 * spec_strength pol T L + 0 * spec_strength pol T M + 1 * spec_strength pol T R)
       / (spec_strength pol T L + spec_strength pol T M + spec_strength pol T R + 1 / 10 ^ 9)"

definition spec_offset :: "string \<Rightarrow> real \<Rightarrow> real \<Rightarrow> real \<Rightarrow> real \<Rightarrow> real \<Rightarrow> real option" where
  "spec_offset pol sens T L M R =
     (if spec_strength pol T L + spec_strength pol T M + spec_strength pol T R < 1 / 10 ^ 6
         \<and> \<not> spec_edge_detected sens L M R
      then None
      else if \<not> spec_edge_detected sens L M R
         \<and> max (max (spec_strength pol T L) (spec_strength pol T M)) (spec_strength pol T R) < sens
      then Some 0
      else Some (spec_clamp (spec_centroid pol T L M R)))"

text \<open>
  The baseline is documented as \<^verbatim>\<open>[L,M,R]\<close>: it is \<^verbatim>\<open>None\<close> until the first update
  and a list of three channels afterwards.
\<close>

definition baseline_wf :: "GrayscaleInterpreter \<Rightarrow> bool" where
  "baseline_wf s = (case baseline s of None \<Rightarrow> True | Some b \<Rightarrow> length b = 3)"

text \<open>
  The bound proved below on the rounding error of one baseline update with the old value
  \<open>old\<close> and the reading \<open>reading\<close>: eight times the relative error of one rounding,
  \<open>pow2 (- 53)\<close>, on \<open>\<bar>old\<bar> + \<bar>reading\<bar>\<close>, and eight times the absolute error of one
  rounding among the subnormal numbers, \<open>pow2 (- 1075)\<close>.
\<close>

definition baseline_slack :: "real \<Rightarrow> real \<Rightarrow> real" where
  "baseline_slack old reading = pow2 (- 50) * (\<bar>old\<bar> + \<bar>reading\<bar>) + pow2 (- 1072)"

text \<open>
  A poll of the recovery loop at time \<open>t\<close>, the loop having started at \<open>t0\<close>, leaves the
  loop when the stop event is set (the \<^verbatim>\<open>while\<close> test), when the line is seen (the first
  \<^verbatim>\<open>break\<close>) or when more than \<^verbatim>\<open>RECOVER_MAX_TIME\<close> has elapsed (the second).
\<close>

definition loop_exits :: "env \<Rightarrow> real \<Rightarrow> real \<Rightarrow> bool" where
  "loop_exits e t0 t =
     (stop_is_set e t \<or> line_seen_thresh (get_grayscale_data e t) \<or> t - t0 > RECOVER_MAX_TIME)"

subsection \<open>Concrete configurations\<close>

text \<open>
  The interpreter and the controller that \<^verbatim>\<open>run_level4_grayscale\<close> constructs, an
  environment in which the stop event is never set and all three channels read 1000 (no
  line under the sensors), and a world at time 0 with nothing commanded yet.
\<close>

definition level4_interp :: GrayscaleInterpreter where
  "level4_interp = \<lparr>sensitivity = 120, polarity = ''dark'', auto_baseline = True,
     alpha = 0.02, baseline = None, thresh = 850\<rparr>"

definition level4_controller :: PDController where
  "level4_controller = PDController_init MAX_ANGLE CONTROL_DT RESPONSE DAMPING"

definition env_lost :: env where
  "env_lost = \<lparr>stop_is_set = (\<lambda>t. False), get_grayscale_data = (\<lambda>t. (1000, 1000, 1000))\<rparr>"

definition world0 :: world where
  "world0 = \<lparr>clock = 0, trace = [], stamps = []\<rparr>"

text \<open>
  An environment in which the stop event is never set and the line is back under the left
  sensor from time 0.5 on.
\<close>

definition env_back :: env where
  "env_back = \<lparr>stop_is_set = (\<lambda>t. False),
     get_grayscale_data = (\<lambda>t. if t < 0.5 then (1000, 1000, 1000) else (200, 1000, 1000))\<rparr>"

text \<open>
  An environment in which the line is never seen and the stop event is set from time 1 on.
\<close>

definition env_halt :: env where
  "env_halt = \<lparr>stop_is_set = (\<lambda>t. 1 \<le> t), get_grayscale_data = (\<lambda>t. (1000, 1000, 1000))\<rparr>"

definition tracked_interp :: GrayscaleInterpreter where
  "tracked_interp = \<lparr>sensitivity = 120, polarity = ''dark'', auto_baseline = True,
     alpha = 0.02, baseline = Some [100, 200, 300], thresh = 850\<rparr>"

text \<open>
  An interpreter whose smoothing factor is the double that the literal \<^verbatim>\<open>0.02\<close> of
  \<^verbatim>\<open>run_level4_grayscale\<close> denotes, and whose baseline is 7 on every channel. (In
  \<open>level4_interp\<close> and \<open>tracked_interp\<close> the factor is written as the real number 0.02:
  what \<open>process\<close> returns does not depend on it.)
\<close>

definition steady_interp :: GrayscaleInterpreter where
  "steady_interp = \<lparr>sensitivity = 120, polarity = ''dark'', auto_baseline = True,
     alpha = dbl_round 0.02, baseline = Some [7, 7, 7], thresh = 850\<rparr>"

section \<open>Properties\<close>

subsection \<open>Facts about rounding to double precision\<close>

lemma pow2_pos: "0 < pow2 k"
  by (simp add: pow2_def)

lemma pow2_powr: "pow2 k = 2 powr (real_of_int k)"
  by (simp add: pow2_def powr_real_of_int inverse_eq_divide)

lemma pow2_add: "pow2 (j + k) = pow2 j * pow2 k"
  by (simp add: pow2_powr powr_add)

lemma pow2_mono: "j \<le> k \<Longrightarrow> pow2 j \<le> pow2 k"
  by (simp add: pow2_powr)

lemma bitlen_ge_1: "0 < n \<Longrightarrow> 1 \<le> bitlen n"
  by (simp add: bitlen_alt_def)

text \<open>\<open>dbl_exponent x\<close> is the exponent of \<open>x\<close>: \<open>pow2 e \<le> \<bar>x\<bar> < pow2 (e + 1)\<close>.\<close>

lemma dbl_exponent_lower:
  assumes "x \<noteq> 0"
  shows "pow2 (dbl_exponent x) \<le> \<bar>x\<bar>"
proof (cases "1 \<le> \<bar>x\<bar>")
  case True
  define n where "n = \<lfloor>\<bar>x\<bar>\<rfloor>"
  have "1 \<le> n" using True by (simp add: n_def le_floor_iff)
  then have pos: "0 < n" by simp
  from bitlen_bounds[OF pos] have b: "2 ^ nat (bitlen n - 1) \<le> n" by simp
  have "pow2 (bitlen n - 1) = of_int (2 ^ nat (bitlen n - 1))"
    using bitlen_ge_1[OF pos] by (simp add: pow2_def)
  also have "\<dots> \<le> of_int n" using b by (simp only: of_int_le_iff)
  also have "\<dots> \<le> \<bar>x\<bar>" by (simp add: n_def)
  finally show ?thesis using True by (simp add: dbl_exponent_def n_def)
next
  case False
  define y where "y = 1 / \<bar>x\<bar>"
  define m where "m = \<lceil>y\<rceil> - 1"
  from False assms have x: "0 < \<bar>x\<bar>" "\<bar>x\<bar> < 1" by simp_all
  then have y1: "1 < y" by (simp add: y_def)
  then have "1 < \<lceil>y\<rceil>" by (simp add: less_ceiling_iff)
  then have pos: "0 < m" by (simp add: m_def)
  from bitlen_bounds[OF pos] have "m < 2 ^ nat (bitlen m)" by simp
  then have "\<lceil>y\<rceil> \<le> 2 ^ nat (bitlen m)" by (simp add: m_def)
  then have "of_int \<lceil>y\<rceil> \<le> (of_int (2 ^ nat (bitlen m)) :: real)" by (simp only: of_int_le_iff)
  moreover have "(of_int (2 ^ nat (bitlen m)) :: real) = 2 ^ nat (bitlen m)" by simp
  ultimately have "y \<le> 2 ^ nat (bitlen m)" using le_of_int_ceiling[of y] by linarith
  then have "1 / 2 ^ nat (bitlen m) \<le> \<bar>x\<bar>"
    using x by (simp add: y_def field_simps)
  moreover have "pow2 (- bitlen m) = 1 / 2 ^ nat (bitlen m)"
    using bitlen_ge_1[OF pos] by (simp add: pow2_def)
  ultimately show ?thesis using False by (simp add: dbl_exponent_def m_def y_def)
qed

lemma dbl_exponent_upper:
  assumes "x \<noteq> 0"
  shows "\<bar>x\<bar> < pow2 (dbl_exponent x + 1)"
proof (cases "1 \<le> \<bar>x\<bar>")
  case True
  define n where "n = \<lfloor>\<bar>x\<bar>\<rfloor>"
  have "1 \<le> n" using True by (simp add: n_def le_floor_iff)
  then have pos: "0 < n" by simp
  from bitlen_bounds[OF pos] have "n + 1 \<le> 2 ^ nat (bitlen n)" by simp
  then have "of_int (n + 1) \<le> (of_int (2 ^ nat (bitlen n)) :: real)" by (simp only: of_int_le_iff)
  moreover have "\<bar>x\<bar> < of_int (n + 1)" unfolding n_def by linarith
  moreover have "pow2 (bitlen n) = of_int (2 ^ nat (bitlen n))"
    using bitlen_ge_1[OF pos] by (simp add: pow2_def)
  ultimately have "\<bar>x\<bar> < pow2 (bitlen n)" by linarith
  then show ?thesis using True by (simp add: dbl_exponent_def n_def)
next
  case False
  define y where "y = 1 / \<bar>x\<bar>"
  define m where "m = \<lceil>y\<rceil> - 1"
  from False assms have x: "0 < \<bar>x\<bar>" "\<bar>x\<bar> < 1" by simp_all
  then have y1: "1 < y" by (simp add: y_def)
  then have "1 < \<lceil>y\<rceil>" by (simp add: less_ceiling_iff)
  then have pos: "0 < m" by (simp add: m_def)
  from bitlen_bounds[OF pos] have "2 ^ nat (bitlen m - 1) \<le> m" by simp
  then have "(of_int (2 ^ nat (bitlen m - 1)) :: real) \<le> of_int m" by (simp only: of_int_le_iff)
  moreover have "of_int m < y" unfolding m_def by linarith
  moreover have "(of_int (2 ^ nat (bitlen m - 1)) :: real) = 2 ^ nat (bitlen m - 1)" by simp
  ultimately have "2 ^ nat (bitlen m - 1) < y" by linarith
  then have lt: "\<bar>x\<bar> < 1 / 2 ^ nat (bitlen m - 1)"
    using x by (simp add: y_def field_simps)
  have "pow2 (- bitlen m + 1) = 1 / 2 ^ nat (bitlen m - 1)"
  proof (cases "bitlen m = 1")
    case True
    then show ?thesis by (simp add: pow2_def)
  next
    case False
    with bitlen_ge_1[OF pos] have "1 < bitlen m" by simp
    then show ?thesis by (simp add: pow2_def)
  qed
  with lt show ?thesis using False by (simp add: dbl_exponent_def m_def y_def)
qed

lemma round_half_even_error: "\<bar>of_int (round_half_even y) - y\<bar> \<le> 1 / 2"
proof -
  have "of_int \<lfloor>y\<rfloor> \<le> y" "y < of_int \<lfloor>y\<rfloor> + 1" by linarith+
  then show ?thesis by (auto simp: round_half_even_def Let_def)
qed

lemma round_half_even_bounds:
  "\<lfloor>y\<rfloor> \<le> round_half_even y \<and> round_half_even y \<le> \<lfloor>y\<rfloor> + 1"
  by (simp add: round_half_even_def Let_def)

text \<open>
  \<open>dbl_round x\<close> is a double: an integer of magnitude at most \<open>2 ^ 53\<close> times the power
  of two that the exponent of \<open>x\<close> gives, and it is no farther from \<open>x\<close> than half of that
  power of two.
\<close>

lemma dbl_round_representable:
  "\<exists>m. dbl_round x = of_int m * pow2 (max (dbl_exponent x - 52) (- 1074)) \<and> \<bar>m\<bar> \<le> 2 ^ 53"
proof (cases "x = 0")
  case True
  then have "dbl_round x = of_int 0 * pow2 (max (dbl_exponent x - 52) (- 1074))"
    by (simp add: dbl_round_def)
  then show ?thesis by (intro exI[of _ 0]) simp
next
  case False
  define q where "q = max (dbl_exponent x - 52) (- 1074)"
  define y where "y = x / pow2 q"
  have pq: "0 < pow2 q" by (rule pow2_pos)
  have "dbl_exponent x + 1 \<le> q + 53" by (simp add: q_def)
  then have "pow2 (dbl_exponent x + 1) \<le> pow2 (q + 53)" by (rule pow2_mono)
  also have "\<dots> = pow2 q * 2 ^ 53" by (simp add: pow2_add) (simp add: pow2_def)
  finally have "\<bar>x\<bar> < pow2 q * 2 ^ 53" using dbl_exponent_upper[OF False] by linarith
  then have "\<bar>y\<bar> < 2 ^ 53" using pq by (simp add: y_def field_simps)
  then have "y < 2 ^ 53" "- (2 ^ 53) < y" by linarith+
  then have "\<lfloor>y\<rfloor> < 2 ^ 53" "- (2 ^ 53) \<le> \<lfloor>y\<rfloor>"
    by (simp_all add: floor_less_iff le_floor_iff)
  with round_half_even_bounds[of y] have "\<bar>round_half_even y\<bar> \<le> 2 ^ 53" by linarith
  moreover have "dbl_round x = of_int (round_half_even y) * pow2 q"
    using False by (simp add: dbl_round_def Let_def q_def y_def)
  ultimately show ?thesis unfolding q_def by blast
qed

lemma dbl_round_half_ulp:
  "\<bar>dbl_round x - x\<bar> \<le> pow2 (max (dbl_exponent x - 52) (- 1074) - 1)"
proof (cases "x = 0")
  case True
  then show ?thesis using pow2_pos[of "max (dbl_exponent x - 52) (- 1074) - 1"]
    by (simp add: dbl_round_def)
next
  case False
  define q where "q = max (dbl_exponent x - 52) (- 1074)"
  define r where "r = round_half_even (x / pow2 q)"
  have rnd: "dbl_round x = of_int r * pow2 q"
    using False by (simp add: dbl_round_def Let_def q_def r_def)
  have pq: "0 < pow2 q" by (rule pow2_pos)
  have "dbl_round x - x = (of_int r - x / pow2 q) * pow2 q"
    using pq by (simp add: rnd field_simps)
  then have "\<bar>dbl_round x - x\<bar> = \<bar>of_int r - x / pow2 q\<bar> * pow2 q"
    using pq by (simp add: abs_mult)
  also have "\<dots> \<le> 1 / 2 * pow2 q"
    using round_half_even_error[of "x / pow2 q"] pq unfolding r_def
    by (intro mult_right_mono) simp_all
  also have "\<dots> = pow2 (q - 1)"
    using pow2_add[of q "- 1"] by (simp add: pow2_def)
  finally show ?thesis unfolding q_def .
qed

text \<open>
  The error of one rounding: the relative error is at most \<open>pow2 (- 53)\<close>, but for the
  subnormal numbers, where the absolute error is at most \<open>pow2 (- 1075)\<close>.
\<close>

lemma dbl_round_error: "\<bar>dbl_round x - x\<bar> \<le> \<bar>x\<bar> * pow2 (- 53) + pow2 (- 1075)"
proof (cases "x = 0")
  case True
  then show ?thesis using pow2_pos[of "- 1075"] by (simp add: dbl_round_def)
next
  case False
  define q where "q = max (dbl_exponent x - 52) (- 1074)"
  have half: "\<bar>dbl_round x - x\<bar> \<le> pow2 (q - 1)"
    unfolding q_def by (rule dbl_round_half_ulp)
  show ?thesis
  proof (cases "dbl_exponent x - 52 \<le> - 1074")
    case True
    then have "q - 1 = - 1075" by (simp add: q_def)
    then have "pow2 (q - 1) = pow2 (- 1075)" by (simp only:)
    moreover have "0 \<le> \<bar>x\<bar> * pow2 (- 53)"
      using pow2_pos[of "- 53"] by simp
    ultimately show ?thesis using half by linarith
  next
    case False
    then have "q - 1 = dbl_exponent x + (- 53)" by (simp add: q_def)
    then have "pow2 (q - 1) = pow2 (dbl_exponent x) * pow2 (- 53)"
      by (simp only: pow2_add)
    also have "\<dots> \<le> \<bar>x\<bar> * pow2 (- 53)"
      using dbl_exponent_lower[OF \<open>x \<noteq> 0\<close>] pow2_pos[of "- 53"]
      by (intro mult_right_mono) simp_all
    finally show ?thesis using half pow2_pos[of "- 1075"] by linarith
  qed
qed

subsection \<open>Auxiliary facts about the interpreter\<close>

lemma lower_dark: "lower ''dark'' = ''dark''"
  by code_simp

lemma lower_POLARITY: "lower POLARITY = ''dark''"
  unfolding POLARITY_def by code_simp

lemma level4_interp_constructed:
  "GrayscaleInterpreter_init SENSITIVITY POLARITY True 0.02 THRESH = Inr level4_interp"
  by (simp add: GrayscaleInterpreter_init_def lower_POLARITY level4_interp_def
      SENSITIVITY_def THRESH_def)

lemma baseline_loop_ok:
  assumes "length b = 3" "length v = 3"
  shows "baseline_loop a v [0, 1, 2] b =
    Inr [dbl_round (dbl_round (dbl_round (1 - a) * b ! 0) + dbl_round (a * v ! 0)),
         dbl_round (dbl_round (dbl_round (1 - a) * b ! 1) + dbl_round (a * v ! 1)),
         dbl_round (dbl_round (dbl_round (1 - a) * b ! 2) + dbl_round (a * v ! 2))]"
proof -
  from assms(1) obtain b0 b1 b2 where b: "b = [b0, b1, b2]"
    by (auto simp: length_Suc_conv numeral_3_eq_3)
  from assms(2) obtain v0 v1 v2 where v: "v = [v0, v1, v2]"
    by (auto simp: length_Suc_conv numeral_3_eq_3)
  show ?thesis unfolding b v by (simp add: baseline_step_def)
qed

lemma update_baseline_ok:
  assumes "baseline_wf s" "length v = 3"
  shows "\<exists>b'. update_baseline s v = Inr (s\<lparr>baseline := Some b'\<rparr>) \<and> length b' = 3"
proof (cases "baseline s")
  case None
  then have "update_baseline s v = Inr (s\<lparr>baseline := Some v\<rparr>)"
    by (simp add: update_baseline_def)
  with assms(2) show ?thesis by blast
next
  case (Some b)
  with assms(1) have "length b = 3" by (simp add: baseline_wf_def)
  from baseline_loop_ok[OF this assms(2), of "alpha s"] obtain b' where
    loop: "baseline_loop (alpha s) v [0, 1, 2] b = Inr b'" and len: "length b' = 3"
    by simp
  have "update_baseline s v = Inr (s\<lparr>baseline := Some b'\<rparr>)"
    unfolding update_baseline_def Some option.case loop sum.case ..
  with len show ?thesis by blast
qed

lemma process_pre:
  assumes "baseline_wf s"
  shows "\<exists>s1. (if auto_baseline s then update_baseline s [L, M, R] else Inr s) = Inr s1
     \<and> sensitivity s1 = sensitivity s \<and> polarity s1 = polarity s \<and> thresh s1 = thresh s
     \<and> baseline_wf s1"
proof (cases "auto_baseline s")
  case True
  from update_baseline_ok[OF assms, of "[L, M, R]"] obtain b' where
    "update_baseline s [L, M, R] = Inr (s\<lparr>baseline := Some b'\<rparr>)" "length b' = 3" by auto
  with True show ?thesis by (simp add: baseline_wf_def)
next
  case False
  with assms show ?thesis by simp
qed

lemma process_refines_spec:
  assumes "baseline_wf s"
  shows "\<exists>s1. process s [L, M, R] = Inr (spec_offset (polarity s) (sensitivity s) (thresh s) L M R, s1)
     \<and> baseline_wf s1"
proof -
  from process_pre[OF assms, of L M R] obtain s1 where
    pre: "(if auto_baseline s then update_baseline s [L, M, R] else Inr s) = Inr s1"
    and flds: "sensitivity s1 = sensitivity s" "polarity s1 = polarity s" "thresh s1 = thresh s"
    and wf: "baseline_wf s1" by blast
  have "process s [L, M, R] = Inr (spec_offset (polarity s) (sensitivity s) (thresh s) L M R, s1)"
    unfolding process_def Let_def list.case pre sum.case flds spec_offset_def spec_strength_def
      spec_edge_detected_def spec_clamp_def spec_centroid_def
    by (simp only: if_distrib[of "\<lambda>x. Inr (x, s1)"] if_distrib[of Some] cong: if_cong)
  with wf show ?thesis by blast
qed

lemma process_returns_spec:
  "baseline_wf s \<Longrightarrow>
   process_returns s [L, M, R] = Inr (spec_offset (polarity s) (sensitivity s) (thresh s) L M R)"
  using process_refines_spec[of s L M R] by (auto simp: process_returns_def)

lemma level4_interp_wf: "baseline_wf level4_interp"
  by (simp add: baseline_wf_def level4_interp_def)

lemma shape_range:
  "(if A then Inr (None, s1) else if B then Inr (Some 0, s1)
    else Inr (Some (if (if c > 1 then 1 else c) < - 1 then - 1 else (if c > 1 then 1 else c)), s1))
     = Inr (Some x, s') \<Longrightarrow> - 1 \<le> x \<and> x \<le> (1::real)"
  by (auto split: if_splits)

subsection \<open>The offset stays in range\<close>

text \<open>
  Claim C1. For every triple of readings and every interpreter, whenever \<open>process\<close>
  returns an offset other than \<^const>\<open>None\<close>, that offset lies in the closed interval
  from \<open>-1\<close> to \<open>1\<close>. No assumption on the configuration is needed.
\<close>

theorem process_offset_in_range:
  assumes "process s [L, M, R] = Inr (Some x, s')"
  shows "- 1 \<le> x \<and> x \<le> 1"
proof (cases "if auto_baseline s then update_baseline s [L, M, R] else Inr s")
  case (Inl e)
  from assms[unfolded process_def Let_def list.case Inl sum.case] show ?thesis
    by simp
next
  case (Inr s1)
  from assms[unfolded process_def Let_def list.case Inr sum.case] show ?thesis
    by (rule shape_range)
qed

lemma process_level4_left:
  "process level4_interp [200, 900, 900]
     = Inr (Some (- 650 / (650 + 1 / 10 ^ 9)), level4_interp\<lparr>baseline := Some [200, 900, 900]\<rparr>)"
  by (simp add: process_def update_baseline_def level4_interp_def Let_def)

theorem process_offset_in_range_witness:
  "process level4_interp [200, 900, 900]
     = Inr (Some (- 650 / (650 + 1 / 10 ^ 9)), level4_interp\<lparr>baseline := Some [200, 900, 900]\<rparr>)
   \<and> - 1 \<le> (- 650 / (650 + 1 / 10 ^ 9) :: real) \<and> (- 650 / (650 + 1 / 10 ^ 9) :: real) \<le> 1"
  using process_offset_in_range[OF process_level4_left] process_level4_left by simp

subsection \<open>The bus holds the latest message\<close>

text \<open>
  Claim C2. A bus constructed with the default initial message reads \<^const>\<open>None\<close>
  before any write; after any finite sequence of writes (the writes \<open>ms\<close> followed by a
  last write of \<open>m\<close>) it reads the message of the last write; and a write replaces the
  stored message whatever the bus held.
\<close>

theorem Bus_read_latest:
  "Bus_read (Bus_init None) = None
   \<and> Bus_read (foldl Bus_write (Bus_init None) (ms @ [m])) = m
   \<and> Bus_read (Bus_write b m) = m"
  by (simp add: Bus_read_def Bus_write_def Bus_init_def)

subsection \<open>The gains of the controller\<close>

text \<open>
  Claim C8. The constructor of the controller derives \<open>Kp = max_angle * response\<close> and
  \<open>Kd = Kp * dt * damping\<close>; for \<open>max_angle = 30\<close>, \<open>response = 1.0\<close>, \<open>dt = 0.02\<close> and
  \<open>damping = 0.8\<close> (the values \<^verbatim>\<open>run_level4_grayscale\<close> passes) it yields \<open>Kp = 30\<close>
  and \<open>Kd = 0.48\<close>.
\<close>

theorem PDController_gains:
  "Kp (PDController_init ma d r dm) = ma * r
   \<and> Kd (PDController_init ma d r dm) = Kp (PDController_init ma d r dm) * d * dm
   \<and> Kp (PDController_init 30 0.02 1.0 0.8) = 30.0
   \<and> Kd (PDController_init 30 0.02 1.0 0.8) = 0.48
   \<and> Kp level4_controller = 30.0 \<and> Kd level4_controller = 0.48"
  by (simp add: PDController_init_def level4_controller_def MAX_ANGLE_def CONTROL_DT_def
      RESPONSE_def DAMPING_def)

subsection \<open>Two worked triples\<close>

lemma process_level4_right:
  "process level4_interp [500, 500, 400]
     = Inr (Some (100 / (1150 + 1 / 10 ^ 9)), level4_interp\<lparr>baseline := Some [500, 500, 400]\<rparr>)"
  by (simp add: process_def update_baseline_def level4_interp_def Let_def)

lemma process_level4_faint:
  "process level4_interp [800, 800, 750]
     = Inr (Some 0, level4_interp\<lparr>baseline := Some [800, 800, 750]\<rparr>)"
  by (simp add: process_def update_baseline_def level4_interp_def Let_def)

text \<open>
  Claim C6. For the triple \<open>(500, 500, 500)\<close> with threshold 850, polarity dark and
  sensitivity 120, every strength is 350, no edge is detected, the largest strength is
  not below the sensitivity, the centroid is 0, and \<open>process\<close> returns the offset 0.
  That 0 is the computed centroid and not the 0 of the centred branch: on every triple
  with no edge whose largest strength is not below the sensitivity (and whose total
  strength is not below \<open>1 / 10 ^ 6\<close>), \<open>process\<close> returns the clamped centroid, and
  where the largest strength is below the sensitivity it returns the 0 of the centred
  branch. So on \<open>(500, 500, 400)\<close>, again with no edge and strengths not below the
  sensitivity, it returns the centroid \<open>100 / (1150 + 1 / 10 ^ 9)\<close>, which is not 0, and on
  \<open>(800, 800, 750)\<close>, with no edge and strengths 50, 50 and 100, it returns the 0 of the
  centred branch although the centroid there is not 0.
\<close>

theorem process_centered_500:
  assumes "baseline_wf s"
  shows "(\<not> spec_edge_detected (sensitivity s) L M R
          \<and> \<not> max (max (spec_strength (polarity s) (thresh s) L)
                       (spec_strength (polarity s) (thresh s) M))
                  (spec_strength (polarity s) (thresh s) R) < sensitivity s
          \<and> \<not> spec_strength (polarity s) (thresh s) L + spec_strength (polarity s) (thresh s) M
                + spec_strength (polarity s) (thresh s) R < 1 / 10 ^ 6
          \<longrightarrow> process_returns s [L, M, R]
                = Inr (Some (spec_clamp (spec_centroid (polarity s) (thresh s) L M R))))
    \<and> (\<not> spec_edge_detected (sensitivity s) L M R
          \<and> max (max (spec_strength (polarity s) (thresh s) L)
                     (spec_strength (polarity s) (thresh s) M))
                (spec_strength (polarity s) (thresh s) R) < sensitivity s
          \<and> \<not> spec_strength (polarity s) (thresh s) L + spec_strength (polarity s) (thresh s) M
                + spec_strength (polarity s) (thresh s) R < 1 / 10 ^ 6
          \<longrightarrow> process_returns s [L, M, R] = Inr (Some 0))
    \<and> spec_strength ''dark'' 850 500 = 350
    \<and> \<not> spec_edge_detected 120 500 500 500
    \<and> \<not> max (max (spec_strength ''dark'' 850 500) (spec_strength ''dark'' 850 500))
           (spec_strength ''dark'' 850 500) < (120::real)
    \<and> spec_centroid ''dark'' 850 500 500 500 = 0
    \<and> process_returns level4_interp [500, 500, 500]
        = Inr (Some (spec_clamp (spec_centroid ''dark'' 850 500 500 500)))
    \<and> process_returns level4_interp [500, 500, 500] = Inr (Some 0)
    \<and> \<not> spec_edge_detected 120 500 500 400
    \<and> process_returns level4_interp [500, 500, 400] = Inr (Some (100 / (1150 + 1 / 10 ^ 9)))
    \<and> (100 / (1150 + 1 / 10 ^ 9) :: real) \<noteq> 0
    \<and> \<not> spec_edge_detected 120 800 800 750
    \<and> spec_clamp (spec_centroid ''dark'' 850 800 800 750) \<noteq> 0
    \<and> process_returns level4_interp [800, 800, 750] = Inr (Some 0)"
proof -
  have fields: "polarity level4_interp = ''dark''" "sensitivity level4_interp = 120"
    "thresh level4_interp = 850"
    by (simp_all add: level4_interp_def)
  have centroid: "\<not> spec_edge_detected (sensitivity s) L M R
          \<and> \<not> max (max (spec_strength (polarity s) (thresh s) L)
                       (spec_strength (polarity s) (thresh s) M))
                  (spec_strength (polarity s) (thresh s) R) < sensitivity s
          \<and> \<not> spec_strength (polarity s) (thresh s) L + spec_strength (polarity s) (thresh s) M
                + spec_strength (polarity s) (thresh s) R < 1 / 10 ^ 6
          \<longrightarrow> process_returns s [L, M, R]
                = Inr (Some (spec_clamp (spec_centroid (polarity s) (thresh s) L M R)))"
    unfolding process_returns_spec[OF assms] spec_offset_def by simp
  have centred: "\<not> spec_edge_detected (sensitivity s) L M R
          \<and> max (max (spec_strength (polarity s) (thresh s) L)
                     (spec_strength (polarity s) (thresh s) M))
                (spec_strength (polarity s) (thresh s) R) < sensitivity s
          \<and> \<not> spec_strength (polarity s) (thresh s) L + spec_strength (polarity s) (thresh s) M
                + spec_strength (polarity s) (thresh s) R < 1 / 10 ^ 6
          \<longrightarrow> process_returns s [L, M, R] = Inr (Some 0)"
    unfolding process_returns_spec[OF assms] spec_offset_def by simp
  have s500: "spec_strength ''dark'' 850 500 = 350"
    by (simp add: spec_strength_def)
  have e500: "\<not> spec_edge_detected 120 500 500 500"
    by (simp add: spec_edge_detected_def)
  have m500: "\<not> max (max (spec_strength ''dark'' 850 500) (spec_strength ''dark'' 850 500))
           (spec_strength ''dark'' 850 500) < (120::real)"
    by (simp add: s500)
  have c500: "spec_centroid ''dark'' 850 500 500 500 = 0"
    by (simp add: spec_centroid_def s500)
  have p500: "process_returns level4_interp [500, 500, 500]
        = Inr (Some (spec_clamp (spec_centroid ''dark'' 850 500 500 500)))"
    unfolding process_returns_spec[OF level4_interp_wf] fields spec_offset_def
    by (simp add: e500 s500)
  have z500: "process_returns level4_interp [500, 500, 500] = Inr (Some 0)"
    unfolding p500 c500 by (simp add: spec_clamp_def)
  have e400: "\<not> spec_edge_detected 120 500 500 400"
    by (simp add: spec_edge_detected_def)
  have p400: "process_returns level4_interp [500, 500, 400] = Inr (Some (100 / (1150 + 1 / 10 ^ 9)))"
    by (simp add: process_returns_def process_level4_right)
  have n400: "(100 / (1150 + 1 / 10 ^ 9) :: real) \<noteq> 0"
    by simp
  have e750: "\<not> spec_edge_detected 120 800 800 750"
    by (simp add: spec_edge_detected_def)
  have c750: "spec_clamp (spec_centroid ''dark'' 850 800 800 750) \<noteq> 0"
    by (simp add: spec_clamp_def spec_centroid_def spec_strength_def)
  have p750: "process_returns level4_interp [800, 800, 750] = Inr (Some 0)"
    by (simp add: process_returns_def process_level4_faint)
  from centroid centred s500 e500 m500 c500 p500 z500 e400 p400 n400 e750 c750 p750
  show ?thesis by blast
qed

theorem process_centered_500_witness:
  "baseline_wf level4_interp
   \<and> \<not> spec_edge_detected (sensitivity level4_interp) 500 500 400
   \<and> \<not> max (max (spec_strength (polarity level4_interp) (thresh level4_interp) 500)
                (spec_strength (polarity level4_interp) (thresh level4_interp) 500))
           (spec_strength (polarity level4_interp) (thresh level4_interp) 400)
         < sensitivity level4_interp
   \<and> \<not> spec_strength (polarity level4_interp) (thresh level4_interp) 500
         + spec_strength (polarity level4_interp) (thresh level4_interp) 500
         + spec_strength (polarity level4_interp) (thresh level4_interp) 400 < 1 / 10 ^ 6
   \<and> process_returns level4_interp [500, 500, 400]
       = Inr (Some (spec_clamp (spec_centroid (polarity level4_interp) (thresh level4_interp)
            500 500 400)))
   \<and> spec_clamp (spec_centroid (polarity level4_interp) (thresh level4_interp) 500 500 400)
       = 100 / (1150 + 1 / 10 ^ 9)"
proof -
  have fields: "polarity level4_interp = ''dark''" "sensitivity level4_interp = 120"
    "thresh level4_interp = 850"
    by (simp_all add: level4_interp_def)
  have e: "\<not> spec_edge_detected (sensitivity level4_interp) 500 500 400"
    unfolding fields by (simp add: spec_edge_detected_def)
  have m: "\<not> max (max (spec_strength (polarity level4_interp) (thresh level4_interp) 500)
                (spec_strength (polarity level4_interp) (thresh level4_interp) 500))
           (spec_strength (polarity level4_interp) (thresh level4_interp) 400)
         < sensitivity level4_interp"
    unfolding fields by (simp add: spec_strength_def)
  have t: "\<not> spec_strength (polarity level4_interp) (thresh level4_interp) 500
         + spec_strength (polarity level4_interp) (thresh level4_interp) 500
         + spec_strength (polarity level4_interp) (thresh level4_interp) 400 < 1 / 10 ^ 6"
    unfolding fields by (simp add: spec_strength_def)
  have c: "spec_clamp (spec_centroid (polarity level4_interp) (thresh level4_interp) 500 500 400)
       = 100 / (1150 + 1 / 10 ^ 9)"
    unfolding fields by (simp add: spec_clamp_def spec_centroid_def spec_strength_def)
  from process_centered_500[OF level4_interp_wf, of 500 500 400] e m t
  have "process_returns level4_interp [500, 500, 400]
       = Inr (Some (spec_clamp (spec_centroid (polarity level4_interp) (thresh level4_interp)
            500 500 400)))"
    by blast
  with level4_interp_wf e m t c show ?thesis by blast
qed

text \<open>
  Claim C5, as stated, fails: for the triple \<open>(200, 900, 900)\<close> the returned offset is
  not \<open>-1\<close>. The centroid divides by the total strength plus \<open>1 / 10 ^ 9\<close>, so it is
  \<open>-650 / (650 + 1 / 10 ^ 9)\<close>, strictly above \<open>-1\<close>, and the clamp leaves it as it is.
\<close>

theorem process_left_200_not_minus_one:
  "process_returns level4_interp [200, 900, 900] \<noteq> Inr (Some (- 1))"
  by (simp add: process_returns_def process_level4_left)

text \<open>
  Claim C5, amended. For the triple \<open>(200, 900, 900)\<close> with threshold 850, polarity dark
  and sensitivity 120 the strengths are \<open>(650, 0, 0)\<close>, an edge is detected, and
  \<open>process\<close> returns the centroid \<open>-650 / (650 + 1 / 10 ^ 9)\<close>, which the clamp does not
  change: it lies strictly between \<open>-1\<close> and \<open>-1 + 1 / 10 ^ 11\<close>.
\<close>

theorem process_left_200:
  "spec_strength ''dark'' 850 200 = 650 \<and> spec_strength ''dark'' 850 900 = 0
   \<and> spec_edge_detected 120 200 900 900
   \<and> spec_centroid ''dark'' 850 200 900 900 = - 650 / (650 + 1 / 10 ^ 9)
   \<and> process_returns level4_interp [200, 900, 900] = Inr (Some (- 650 / (650 + 1 / 10 ^ 9)))
   \<and> - 1 < (- 650 / (650 + 1 / 10 ^ 9) :: real)
   \<and> (- 650 / (650 + 1 / 10 ^ 9) :: real) < - 1 + 1 / 10 ^ 11"
  by (simp add: process_returns_def process_level4_left spec_strength_def
      spec_edge_detected_def spec_centroid_def)

subsection \<open>The baseline\<close>

lemma convex_between:
  fixes a x y :: real
  assumes "0 \<le> a" "a \<le> 1"
  shows "min x y \<le> (1 - a) * x + a * y \<and> (1 - a) * x + a * y \<le> max x y
     \<and> \<bar>y - ((1 - a) * x + a * y)\<bar> \<le> \<bar>y - x\<bar>"
proof -
  define d where "d = a * (y - x)"
  have eq: "(1 - a) * x + a * y = x + d"
    by (simp add: d_def algebra_simps)
  show ?thesis
  proof (cases "x \<le> y")
    case True
    have "0 \<le> d" unfolding d_def using True assms(1) by simp
    moreover have "d \<le> y - x"
      unfolding d_def using mult_right_mono[of a 1 "y - x"] True assms(2) by simp
    ultimately show ?thesis unfolding eq using True by linarith
  next
    case False
    have "d \<le> 0" unfolding d_def using False assms(1) by (simp add: mult_le_0_iff)
    moreover have "y - x \<le> d"
      unfolding d_def using mult_right_mono_neg[of a 1 "y - x"] False assms(2) by simp
    ultimately show ?thesis unfolding eq using False by linarith
  qed
qed

text \<open>
  The rounding error of line 149, for a smoothing factor between 0 and 1: the value it
  computes differs from the exact \<open>(1 - a) * b + a * v\<close> by at most \<open>baseline_slack b v\<close>.
  Each of the four operations contributes the error of one rounding of its exact result.
\<close>

lemma blend_error:
  fixes a b v :: real
  assumes "0 \<le> a" "a \<le> 1"
  shows "\<bar>dbl_round (dbl_round (dbl_round (1 - a) * b) + dbl_round (a * v)) - ((1 - a) * b + a * v)\<bar>
     \<le> baseline_slack b v"
proof -
  define u where "u = pow2 (- 53)"
  define h where "h = pow2 (- 1075)"
  define a1 where "a1 = dbl_round (1 - a)"
  define X where "X = a1 * b"
  define p1 where "p1 = dbl_round X"
  define Y where "Y = a * v"
  define p2 where "p2 = dbl_round Y"
  define S where "S = p1 + p2"
  define R where "R = dbl_round S"
  define B where "B = \<bar>b\<bar>"
  define V where "V = \<bar>v\<bar>"
  define uB where "uB = u * B"
  define uV where "uV = u * V"
  have u: "0 < u" "u \<le> 1 / 2" by (simp_all add: u_def pow2_def)
  have h: "0 < h" unfolding h_def by (rule pow2_pos)
  have hu: "h \<le> u" unfolding h_def u_def by (rule pow2_mono) simp
  have u8: "pow2 (- 50) = 8 * u"
    using pow2_add[of "- 53" 3] by (simp add: u_def) (simp add: pow2_def)
  have h8: "pow2 (- 1072) = 8 * h"
    using pow2_add[of "- 1075" 3] by (simp add: h_def) (simp add: pow2_def)
  have B: "0 \<le> B" and V: "0 \<le> V" by (simp_all add: B_def V_def)
  have uB: "0 \<le> uB" and uV: "0 \<le> uV" using u B V by (simp_all add: uB_def uV_def)
  have a_abs: "\<bar>1 - a\<bar> \<le> 1" "\<bar>a\<bar> \<le> 1" using assms by simp_all
  have e1: "\<bar>a1 - (1 - a)\<bar> \<le> \<bar>1 - a\<bar> * u + h"
    unfolding a1_def u_def h_def by (rule dbl_round_error)
  have "\<bar>1 - a\<bar> * u \<le> 1 * u" using a_abs(1) u(1) by (intro mult_right_mono) simp_all
  with e1 hu have d1: "\<bar>a1 - (1 - a)\<bar> \<le> 2 * u" by linarith
  with a_abs(1) u(2) have a1: "\<bar>a1\<bar> \<le> 2" by linarith
  have "\<bar>X\<bar> = \<bar>a1\<bar> * B" by (simp add: X_def B_def abs_mult)
  also have "\<dots> \<le> 2 * B" using a1 B by (intro mult_right_mono) simp_all
  finally have X: "\<bar>X\<bar> \<le> 2 * B" .
  have "X - (1 - a) * b = (a1 - (1 - a)) * b" by (simp add: X_def algebra_simps)
  then have "\<bar>X - (1 - a) * b\<bar> = \<bar>a1 - (1 - a)\<bar> * B" by (simp add: B_def abs_mult)
  also have "\<dots> \<le> (2 * u) * B" using d1 B by (intro mult_right_mono) simp_all
  finally have dX: "\<bar>X - (1 - a) * b\<bar> \<le> 2 * uB" by (simp add: uB_def)
  have e2: "\<bar>p1 - X\<bar> \<le> \<bar>X\<bar> * u + h"
    unfolding p1_def u_def h_def by (rule dbl_round_error)
  have "\<bar>X\<bar> * u \<le> (2 * B) * u" using X u(1) by (intro mult_right_mono) simp_all
  also have "\<dots> = 2 * uB" by (simp add: uB_def)
  finally have uX: "\<bar>X\<bar> * u \<le> 2 * uB" .
  have "\<bar>Y\<bar> = \<bar>a\<bar> * V" by (simp add: Y_def V_def abs_mult)
  also have "\<dots> \<le> 1 * V" using a_abs(2) V by (intro mult_right_mono) simp_all
  finally have Yb: "\<bar>Y\<bar> \<le> V" by simp
  have e3: "\<bar>p2 - Y\<bar> \<le> \<bar>Y\<bar> * u + h"
    unfolding p2_def u_def h_def by (rule dbl_round_error)
  have "\<bar>Y\<bar> * u \<le> V * u" using Yb u(1) by (intro mult_right_mono) simp_all
  also have "\<dots> = uV" by (simp add: uV_def)
  finally have uY: "\<bar>Y\<bar> * u \<le> uV" .
  have Sb: "\<bar>S\<bar> \<le> 2 * B + 2 * uB + V + uV + 2 * h"
    unfolding S_def using e2 uX X e3 uY Yb by linarith
  have e4: "\<bar>R - S\<bar> \<le> \<bar>S\<bar> * u + h"
    unfolding R_def u_def h_def by (rule dbl_round_error)
  have "\<bar>S\<bar> * u \<le> (2 * B + 2 * uB + V + uV + 2 * h) * u"
    using Sb u(1) by (intro mult_right_mono) simp_all
  also have "\<dots> = 2 * uB + 2 * (uB * u) + uV + uV * u + 2 * (h * u)"
    by (simp add: uB_def uV_def algebra_simps)
  finally have uS0: "\<bar>S\<bar> * u \<le> 2 * uB + 2 * (uB * u) + uV + uV * u + 2 * (h * u)" .
  have "uB * u \<le> uB * 1" using uB u by (intro mult_left_mono) simp_all
  moreover have "uV * u \<le> uV * 1" using uV u by (intro mult_left_mono) simp_all
  moreover have "h * u \<le> h * 1" using h u by (intro mult_left_mono) simp_all
  ultimately have uS: "\<bar>S\<bar> * u \<le> 4 * uB + 2 * uV + 2 * h" using uS0 by linarith
  have "R - ((1 - a) * b + a * v) = (R - S) + (p1 - X) + (X - (1 - a) * b) + (p2 - Y)"
    by (simp add: S_def Y_def)
  then have "\<bar>R - ((1 - a) * b + a * v)\<bar> \<le> 8 * uB + 8 * uV + 8 * h"
    using e4 uS e2 uX dX e3 uY h uB uV by linarith
  also have "\<dots> = baseline_slack b v"
    by (simp add: baseline_slack_def u8 h8 uB_def uV_def B_def V_def algebra_simps)
  finally show ?thesis
    unfolding R_def S_def p1_def p2_def X_def Y_def a1_def .
qed

lemma dbl_round_magnitude:
  assumes "\<bar>x\<bar> \<le> c" "1 \<le> c"
  shows "\<bar>dbl_round x\<bar> \<le> 3 / 2 * c"
proof -
  define e where "e = \<bar>x\<bar> * pow2 (- 53)"
  have u: "pow2 (- 53) \<le> 1 / 4" by (simp add: pow2_def)
  have h: "pow2 (- 1075) \<le> 1 / 4" using pow2_mono[of "- 1075" "- 2"] by (simp add: pow2_def)
  have "e \<le> c * (1 / 4)"
    unfolding e_def using assms u pow2_pos[of "- 53"] by (intro mult_mono) simp_all
  moreover have "\<bar>dbl_round x - x\<bar> \<le> e + pow2 (- 1075)"
    unfolding e_def by (rule dbl_round_error)
  ultimately show ?thesis using h assms by linarith
qed

text \<open>
  With operands of magnitude up to \<open>pow2 1000\<close> no operation of line 149 comes near the
  overflow threshold \<open>pow2 1024\<close>, so \<open>dbl_round\<close> stands for the float operation there:
  the rounded difference, the rounded products and their exact sum are below \<open>pow2 1003\<close>.
\<close>

lemma blend_no_overflow:
  fixes a b v :: real
  assumes "0 \<le> a" "a \<le> 1" "\<bar>b\<bar> \<le> pow2 1000" "\<bar>v\<bar> \<le> pow2 1000"
  shows "\<bar>dbl_round (1 - a)\<bar> \<le> 2
    \<and> \<bar>dbl_round (dbl_round (1 - a) * b)\<bar> < pow2 1003
    \<and> \<bar>dbl_round (a * v)\<bar> < pow2 1003
    \<and> \<bar>dbl_round (dbl_round (1 - a) * b) + dbl_round (a * v)\<bar> < pow2 1003"
proof -
  define P where "P = pow2 1000"
  define a1 where "a1 = dbl_round (1 - a)"
  define X where "X = a1 * b"
  define Y where "Y = a * v"
  have P: "1 \<le> P" unfolding P_def using pow2_mono[of 0 1000] by (simp add: pow2_def)
  have P3: "pow2 1003 = 8 * P"
    unfolding P_def using pow2_add[of 1000 3] by (simp add: pow2_def)
  have a_abs: "\<bar>1 - a\<bar> \<le> 1" "\<bar>a\<bar> \<le> 1" using assms by simp_all
  have a1: "\<bar>a1\<bar> \<le> 2"
    unfolding a1_def using dbl_round_magnitude[OF a_abs(1)] by simp
  have "\<bar>X\<bar> = \<bar>a1\<bar> * \<bar>b\<bar>" by (simp add: X_def abs_mult)
  also have "\<dots> \<le> 2 * P" using a1 assms(3) unfolding P_def by (intro mult_mono) simp_all
  finally have X: "\<bar>X\<bar> \<le> 2 * P" .
  have "\<bar>Y\<bar> = \<bar>a\<bar> * \<bar>v\<bar>" by (simp add: Y_def abs_mult)
  also have "\<dots> \<le> 1 * P" using a_abs(2) assms(4) unfolding P_def by (intro mult_mono) simp_all
  finally have Y: "\<bar>Y\<bar> \<le> 2 * P" using P by simp
  have P2: "1 \<le> 2 * P" using P by simp
  have p1: "\<bar>dbl_round X\<bar> \<le> 3 * P" using dbl_round_magnitude[OF X P2] by simp
  have p2: "\<bar>dbl_round Y\<bar> \<le> 3 * P" using dbl_round_magnitude[OF Y P2] by simp
  from a1 p1 p2 P show ?thesis
    unfolding P3 a1_def[symmetric] X_def[symmetric] Y_def[symmetric] by linarith
qed

lemma baseline_slack_small:
  assumes "\<bar>b\<bar> \<le> pow2 1000" "\<bar>v\<bar> \<le> pow2 1000"
  shows "pow2 1000 + baseline_slack b v < pow2 1024"
proof -
  define P where "P = pow2 1000"
  have P: "1 \<le> P" unfolding P_def using pow2_mono[of 0 1000] by (simp add: pow2_def)
  have "pow2 1024 = pow2 1000 * pow2 24" using pow2_add[of 1000 24] by simp
  then have P24: "pow2 1024 = 16777216 * P" by (simp add: P_def) (simp add: pow2_def)
  have u: "0 \<le> pow2 (- 50)" "pow2 (- 50) \<le> 1"
    using pow2_pos[of "- 50"] pow2_mono[of "- 50" 0] by (simp_all add: pow2_def)
  have h: "pow2 (- 1072) \<le> 1" using pow2_mono[of "- 1072" 0] by (simp add: pow2_def)
  have "pow2 (- 50) * (\<bar>b\<bar> + \<bar>v\<bar>) \<le> 1 * (2 * P)"
    using u assms unfolding P_def by (intro mult_mono) simp_all
  with h P show ?thesis unfolding baseline_slack_def P24 P_def[symmetric] by linarith
qed

lemma steady_alpha: "alpha steady_interp = 5764607523034235 / 2 ^ 58"
proof -
  have "dbl_round 0.02 = 5764607523034235 / 2 ^ 58" by code_simp
  then show ?thesis by (simp add: steady_interp_def)
qed

lemma steady_blend:
  "dbl_round (dbl_round (dbl_round (1 - alpha steady_interp) * 7)
      + dbl_round (alpha steady_interp * 7)) = 7 - 1 / 2 ^ 50"
  unfolding steady_alpha by code_simp

text \<open>
  Claim C9, as stated, fails: the new baseline value is not always the convex combination
  of the old value and the reading, and need not lie between them. With the smoothing
  factor 0.02 of \<^verbatim>\<open>run_level4_grayscale\<close> and the old value and the reading both 7,
  line 149 computes \<open>7 - 1 / 2 ^ 50\<close> (printed \<^verbatim>\<open>6.999999999999999\<close>) on every channel:
  the two products are rounded, and the double nearest to their sum is below 7.
\<close>

theorem update_baseline_leaves_interval:
  "0 \<le> alpha steady_interp \<and> alpha steady_interp \<le> 1
   \<and> update_baseline steady_interp [7, 7, 7]
       = Inr (steady_interp\<lparr>baseline := Some [7 - 1 / 2 ^ 50, 7 - 1 / 2 ^ 50, 7 - 1 / 2 ^ 50]\<rparr>)
   \<and> (7 - 1 / 2 ^ 50 :: real) \<noteq> (1 - alpha steady_interp) * 7 + alpha steady_interp * 7
   \<and> \<not> min 7 7 \<le> (7 - 1 / 2 ^ 50 :: real)"
proof -
  have a: "0 \<le> alpha steady_interp" "alpha steady_interp \<le> 1"
    by (simp_all add: steady_alpha)
  have b: "baseline steady_interp = Some [7, 7, 7]"
    by (simp add: steady_interp_def)
  have l: "length [7, 7, 7 :: real] = 3" by simp
  have loop: "baseline_loop (alpha steady_interp) [7, 7, 7] [0, 1, 2] [7, 7, 7]
      = Inr [7 - 1 / 2 ^ 50, 7 - 1 / 2 ^ 50, 7 - 1 / 2 ^ 50]"
    unfolding baseline_loop_ok[OF l l] by (simp add: steady_blend)
  have upd: "update_baseline steady_interp [7, 7, 7]
       = Inr (steady_interp\<lparr>baseline := Some [7 - 1 / 2 ^ 50, 7 - 1 / 2 ^ 50, 7 - 1 / 2 ^ 50]\<rparr>)"
    unfolding update_baseline_def b option.case loop sum.case ..
  have ne: "(7 - 1 / 2 ^ 50 :: real) \<noteq> (1 - alpha steady_interp) * 7 + alpha steady_interp * 7"
    by (simp add: steady_alpha)
  have out: "\<not> min 7 7 \<le> (7 - 1 / 2 ^ 50 :: real)" by simp
  from a upd ne out show ?thesis by blast
qed

text \<open>
  Claim C9, amended. For every smoothing factor \<open>alpha\<close> between 0 and 1, a call of
  \<^verbatim>\<open>_update_baseline\<close> with three readings on an interpreter whose baseline has three
  channels, all of magnitude up to \<open>pow2 1000\<close>, sets each channel to the double-precision
  value of \<open>(1 - alpha) * old + alpha * reading\<close>, each of the four operations rounded to
  the nearest double. With \<open>slack = baseline_slack old reading\<close>, that is
  \<open>pow2 (- 50) * (\<bar>old\<bar> + \<bar>reading\<bar>) + pow2 (- 1072)\<close>, the new value
  \<^item> differs from the exact convex combination by at most \<open>slack\<close>;
  \<^item> lies between the old value and the reading, up to \<open>slack\<close> on either side;
  \<^item> is no farther from the reading than the old value was, up to \<open>slack\<close>;
  \<^item> is finite: its magnitude is below the overflow threshold \<open>pow2 1024\<close>.

  The first call (baseline \<^verbatim>\<open>None\<close>) sets the baseline to the readings themselves.
\<close>

theorem update_baseline_rounded_convex:
  assumes "0 \<le> alpha s" "alpha s \<le> 1" "length b = 3" "length v = 3"
    and "\<forall>i<3. \<bar>b ! i\<bar> \<le> pow2 1000 \<and> \<bar>v ! i\<bar> \<le> pow2 1000"
  shows "update_baseline (s\<lparr>baseline := None\<rparr>) v = Inr (s\<lparr>baseline := Some v\<rparr>)
    \<and> (\<exists>b'. update_baseline (s\<lparr>baseline := Some b\<rparr>) v = Inr (s\<lparr>baseline := Some b'\<rparr>)
          \<and> length b' = 3
          \<and> (\<forall>i<3. b' ! i = dbl_round (dbl_round (dbl_round (1 - alpha s) * b ! i)
                               + dbl_round (alpha s * v ! i))
                \<and> \<bar>b' ! i - ((1 - alpha s) * b ! i + alpha s * v ! i)\<bar>
                    \<le> baseline_slack (b ! i) (v ! i)
                \<and> min (b ! i) (v ! i) - baseline_slack (b ! i) (v ! i) \<le> b' ! i
                \<and> b' ! i \<le> max (b ! i) (v ! i) + baseline_slack (b ! i) (v ! i)
                \<and> \<bar>v ! i - b' ! i\<bar> \<le> \<bar>v ! i - b ! i\<bar> + baseline_slack (b ! i) (v ! i)
                \<and> \<bar>b' ! i\<bar> < pow2 1024))"
proof
  show "update_baseline (s\<lparr>baseline := None\<rparr>) v = Inr (s\<lparr>baseline := Some v\<rparr>)"
    by (simp add: update_baseline_def)
next
  define f where "f = (\<lambda>i. dbl_round (dbl_round (dbl_round (1 - alpha s) * b ! i)
      + dbl_round (alpha s * v ! i)))"
  define b' where "b' = [f 0, f 1, f 2]"
  have loop: "baseline_loop (alpha s) v [0, 1, 2] b = Inr b'"
    unfolding b'_def f_def by (rule baseline_loop_ok[OF assms(3,4)])
  have sel: "baseline (s\<lparr>baseline := Some b\<rparr>) = Some b" "alpha (s\<lparr>baseline := Some b\<rparr>) = alpha s"
    by simp_all
  have upd: "update_baseline (s\<lparr>baseline := Some b\<rparr>) v = Inr (s\<lparr>baseline := Some b'\<rparr>)"
    unfolding update_baseline_def sel option.case loop sum.case by simp
  have len: "length b' = 3" by (simp add: b'_def)
  have each: "b' ! i = dbl_round (dbl_round (dbl_round (1 - alpha s) * b ! i)
                               + dbl_round (alpha s * v ! i))
       \<and> \<bar>b' ! i - ((1 - alpha s) * b ! i + alpha s * v ! i)\<bar> \<le> baseline_slack (b ! i) (v ! i)
       \<and> min (b ! i) (v ! i) - baseline_slack (b ! i) (v ! i) \<le> b' ! i
       \<and> b' ! i \<le> max (b ! i) (v ! i) + baseline_slack (b ! i) (v ! i)
       \<and> \<bar>v ! i - b' ! i\<bar> \<le> \<bar>v ! i - b ! i\<bar> + baseline_slack (b ! i) (v ! i)
       \<and> \<bar>b' ! i\<bar> < pow2 1024" if "i < 3" for i
  proof -
    define c where "c = (1 - alpha s) * b ! i + alpha s * v ! i"
    define d where "d = baseline_slack (b ! i) (v ! i)"
    from that have "i = 0 \<or> i = 1 \<or> i = 2" by arith
    then have val: "b' ! i = f i"
      by (auto simp: b'_def)
    from assms(5) that have mag: "\<bar>b ! i\<bar> \<le> pow2 1000" "\<bar>v ! i\<bar> \<le> pow2 1000" by simp_all
    have err: "\<bar>f i - c\<bar> \<le> d"
      unfolding f_def c_def d_def by (rule blend_error[OF assms(1,2)])
    have conv: "min (b ! i) (v ! i) \<le> c" "c \<le> max (b ! i) (v ! i)"
      "\<bar>v ! i - c\<bar> \<le> \<bar>v ! i - b ! i\<bar>"
      unfolding c_def using convex_between[OF assms(1,2), of "b ! i" "v ! i"] by simp_all
    have small: "pow2 1000 + d < pow2 1024"
      unfolding d_def by (rule baseline_slack_small[OF mag])
    have lo: "min (b ! i) (v ! i) - d \<le> f i" using err conv(1) by linarith
    have hi: "f i \<le> max (b ! i) (v ! i) + d" using err conv(2) by linarith
    have near: "\<bar>v ! i - f i\<bar> \<le> \<bar>v ! i - b ! i\<bar> + d" using err conv(3) by linarith
    have fin: "\<bar>f i\<bar> < pow2 1024" using lo hi mag small by linarith
    from err lo hi near fin show ?thesis
      unfolding val c_def d_def by (simp add: f_def)
  qed
  from upd len each
  show "\<exists>b'. update_baseline (s\<lparr>baseline := Some b\<rparr>) v = Inr (s\<lparr>baseline := Some b'\<rparr>)
          \<and> length b' = 3
          \<and> (\<forall>i<3. b' ! i = dbl_round (dbl_round (dbl_round (1 - alpha s) * b ! i)
                               + dbl_round (alpha s * v ! i))
                \<and> \<bar>b' ! i - ((1 - alpha s) * b ! i + alpha s * v ! i)\<bar>
                    \<le> baseline_slack (b ! i) (v ! i)
                \<and> min (b ! i) (v ! i) - baseline_slack (b ! i) (v ! i) \<le> b' ! i
                \<and> b' ! i \<le> max (b ! i) (v ! i) + baseline_slack (b ! i) (v ! i)
                \<and> \<bar>v ! i - b' ! i\<bar> \<le> \<bar>v ! i - b ! i\<bar> + baseline_slack (b ! i) (v ! i)
                \<and> \<bar>b' ! i\<bar> < pow2 1024)"
    by blast
qed

lemma steady_magnitude: "\<bar>7 :: real\<bar> \<le> pow2 1000"
  using pow2_mono[of 3 1000] by (simp add: pow2_def)

theorem update_baseline_rounded_convex_witness:
  "0 \<le> alpha steady_interp \<and> alpha steady_interp \<le> 1
   \<and> \<bar>7 :: real\<bar> \<le> pow2 1000
   \<and> update_baseline (steady_interp\<lparr>baseline := None\<rparr>) [7, 7, 7]
       = Inr (steady_interp\<lparr>baseline := Some [7, 7, 7]\<rparr>)
   \<and> update_baseline steady_interp [7, 7, 7]
       = Inr (steady_interp\<lparr>baseline := Some [7 - 1 / 2 ^ 50, 7 - 1 / 2 ^ 50, 7 - 1 / 2 ^ 50]\<rparr>)
   \<and> \<bar>(7 - 1 / 2 ^ 50) - ((1 - alpha steady_interp) * 7 + alpha steady_interp * 7)\<bar>
       \<le> baseline_slack 7 7
   \<and> min 7 7 - baseline_slack 7 7 \<le> (7 - 1 / 2 ^ 50 :: real)
   \<and> (7 - 1 / 2 ^ 50 :: real) \<le> max 7 7 + baseline_slack 7 7
   \<and> \<bar>7 - 1 / 2 ^ 50 :: real\<bar> < pow2 1024"
proof -
  have a: "0 \<le> alpha steady_interp" "alpha steady_interp \<le> 1"
    by (simp_all add: steady_alpha)
  have l: "length [7, 7, 7 :: real] = 3" by simp
  have m: "\<forall>i<3. \<bar>[7, 7, 7 :: real] ! i\<bar> \<le> pow2 1000 \<and> \<bar>[7, 7, 7 :: real] ! i\<bar> \<le> pow2 1000"
  proof (intro allI impI)
    fix i :: nat
    assume "i < 3"
    then have "i = 0 \<or> i = 1 \<or> i = 2" by arith
    then have "[7, 7, 7 :: real] ! i = 7" by auto
    with steady_magnitude
    show "\<bar>[7, 7, 7 :: real] ! i\<bar> \<le> pow2 1000 \<and> \<bar>[7, 7, 7 :: real] ! i\<bar> \<le> pow2 1000"
      by simp
  qed
  have t: "steady_interp\<lparr>baseline := Some [7, 7, 7]\<rparr> = steady_interp"
    by (simp add: steady_interp_def)
  from update_baseline_rounded_convex[OF a l l m] obtain b' where
    none: "update_baseline (steady_interp\<lparr>baseline := None\<rparr>) [7, 7, 7]
       = Inr (steady_interp\<lparr>baseline := Some [7, 7, 7]\<rparr>)"
    and upd: "update_baseline steady_interp [7, 7, 7] = Inr (steady_interp\<lparr>baseline := Some b'\<rparr>)"
    and len: "length b' = 3"
    and vals: "\<forall>i<3. b' ! i = dbl_round (dbl_round (dbl_round (1 - alpha steady_interp)
             * [7, 7, 7] ! i) + dbl_round (alpha steady_interp * [7, 7, 7] ! i))
        \<and> \<bar>b' ! i - ((1 - alpha steady_interp) * [7, 7, 7] ! i
               + alpha steady_interp * [7, 7, 7] ! i)\<bar>
            \<le> baseline_slack ([7, 7, 7] ! i) ([7, 7, 7] ! i)
        \<and> min ([7, 7, 7] ! i) ([7, 7, 7] ! i) - baseline_slack ([7, 7, 7] ! i) ([7, 7, 7] ! i)
            \<le> b' ! i
        \<and> b' ! i \<le> max ([7, 7, 7] ! i) ([7, 7, 7] ! i)
            + baseline_slack ([7, 7, 7] ! i) ([7, 7, 7] ! i)
        \<and> \<bar>[7, 7, 7] ! i - b' ! i\<bar> \<le> \<bar>[7, 7, 7] ! i - [7, 7, 7] ! i\<bar>
            + baseline_slack ([7, 7, 7] ! i) ([7, 7, 7] ! i)
        \<and> \<bar>b' ! i\<bar> < pow2 1024"
    unfolding t by blast
  from len obtain x y z where b': "b' = [x, y, z]"
    by (auto simp: length_Suc_conv numeral_3_eq_3)
  have v0: "b' ! 0 = 7 - 1 / 2 ^ 50"
    using vals[rule_format, of 0] by (simp add: steady_blend)
  have v1: "b' ! 1 = 7 - 1 / 2 ^ 50"
    using vals[rule_format, of 1] by (simp add: steady_blend)
  have v2: "b' ! 2 = 7 - 1 / 2 ^ 50"
    using vals[rule_format, of 2] by (simp add: steady_blend)
  from v0 v1 v2 have eq: "b' = [7 - 1 / 2 ^ 50, 7 - 1 / 2 ^ 50, 7 - 1 / 2 ^ 50]"
    unfolding b' by simp
  have bounds: "\<bar>(7 - 1 / 2 ^ 50) - ((1 - alpha steady_interp) * 7 + alpha steady_interp * 7)\<bar>
       \<le> baseline_slack 7 7
     \<and> min 7 7 - baseline_slack 7 7 \<le> (7 - 1 / 2 ^ 50 :: real)
     \<and> (7 - 1 / 2 ^ 50 :: real) \<le> max 7 7 + baseline_slack 7 7
     \<and> \<bar>7 - 1 / 2 ^ 50 :: real\<bar> < pow2 1024"
    using vals[rule_format, of 0] unfolding v0 by simp
  from a steady_magnitude none upd[unfolded eq] bounds show ?thesis by blast
qed

text \<open>
  Claim C10. What \<open>process\<close> returns does not depend on the baseline nor on
  \<^verbatim>\<open>auto_baseline\<close>: two interpreters with the same sensitivity, polarity and threshold
  return the same value on every triple of readings, whatever their \<^verbatim>\<open>auto_baseline\<close>
  flags and the contents of their baselines (a baseline being \<^verbatim>\<open>None\<close> or three
  channels, as the code documents it).
\<close>

theorem process_independent_of_baseline:
  assumes "sensitivity s1 = sensitivity s2" "polarity s1 = polarity s2" "thresh s1 = thresh s2"
    and "baseline_wf s1" "baseline_wf s2"
  shows "process_returns s1 [L, M, R] = process_returns s2 [L, M, R]"
  by (simp add: process_returns_spec[OF assms(4)] process_returns_spec[OF assms(5)] assms(1-3))

lemma tracked_interp_wf: "baseline_wf tracked_interp"
  by (simp add: baseline_wf_def tracked_interp_def)

theorem process_independent_of_baseline_witness:
  "sensitivity tracked_interp = sensitivity (level4_interp\<lparr>auto_baseline := False\<rparr>)
   \<and> polarity tracked_interp = polarity (level4_interp\<lparr>auto_baseline := False\<rparr>)
   \<and> thresh tracked_interp = thresh (level4_interp\<lparr>auto_baseline := False\<rparr>)
   \<and> baseline_wf tracked_interp \<and> baseline_wf (level4_interp\<lparr>auto_baseline := False\<rparr>)
   \<and> auto_baseline tracked_interp \<noteq> auto_baseline (level4_interp\<lparr>auto_baseline := False\<rparr>)
   \<and> baseline tracked_interp \<noteq> baseline (level4_interp\<lparr>auto_baseline := False\<rparr>)
   \<and> process_returns tracked_interp [200, 900, 900]
       = process_returns (level4_interp\<lparr>auto_baseline := False\<rparr>) [200, 900, 900]"
proof -
  have f: "sensitivity tracked_interp = sensitivity (level4_interp\<lparr>auto_baseline := False\<rparr>)"
    "polarity tracked_interp = polarity (level4_interp\<lparr>auto_baseline := False\<rparr>)"
    "thresh tracked_interp = thresh (level4_interp\<lparr>auto_baseline := False\<rparr>)"
    by (simp_all add: tracked_interp_def level4_interp_def)
  have w: "baseline_wf (level4_interp\<lparr>auto_baseline := False\<rparr>)"
    by (simp add: baseline_wf_def level4_interp_def)
  have d: "auto_baseline tracked_interp \<noteq> auto_baseline (level4_interp\<lparr>auto_baseline := False\<rparr>)"
    "baseline tracked_interp \<noteq> baseline (level4_interp\<lparr>auto_baseline := False\<rparr>)"
    by (simp_all add: tracked_interp_def level4_interp_def)
  from process_independent_of_baseline[OF f tracked_interp_wf w, of 200 900 900] f
    tracked_interp_wf w d
  show ?thesis by blast
qed

subsection \<open>The configuration error\<close>

lemma baseline_loop_error:
  "baseline_loop a v is b = Inl e \<Longrightarrow> e = IndexError"
  by (induction "is" arbitrary: b) (auto simp: baseline_step_def split: if_splits sum.splits)

lemma update_baseline_error:
  "update_baseline s v = Inl e \<Longrightarrow> e = IndexError"
  by (auto simp del: baseline_loop.simps simp: update_baseline_def
      split: option.splits sum.splits dest: baseline_loop_error)

lemma shape_no_error:
  "(if A then Inr x else if B then Inr y else Inr z) = Inl e \<Longrightarrow> P"
  by (simp split: if_splits)

lemma process_triple_error:
  assumes "process s [L, M, R] = Inl e"
  shows "e = IndexError"
proof (cases "if auto_baseline s then update_baseline s [L, M, R] else Inr s")
  case (Inl e')
  from assms[unfolded process_def Let_def list.case Inl sum.case] have "e' = e" by simp
  moreover from Inl have "update_baseline s [L, M, R] = Inl e'"
    by (simp split: if_splits)
  ultimately show ?thesis using update_baseline_error by blast
next
  case (Inr s1)
  from assms[unfolded process_def Let_def list.case Inr sum.case]
  show ?thesis by (rule shape_no_error)
qed

lemma process_not_triple:
  assumes "\<And>L M R. vals \<noteq> [L, M, R]"
  shows "process s vals = Inl UnpackError"
proof (cases vals)
  case Nil
  then show ?thesis by (simp add: process_def)
next
  case (Cons x1 r1)
  note c1 = this
  show ?thesis
  proof (cases r1)
    case Nil
    with c1 show ?thesis by (simp add: process_def)
  next
    case (Cons x2 r2)
    note c2 = this
    show ?thesis
    proof (cases r2)
      case Nil
      with c1 c2 show ?thesis by (simp add: process_def)
    next
      case (Cons x3 r3)
      with c1 c2 assms obtain x4 r4 where "r3 = x4 # r4" by (cases r3) auto
      with c1 c2 Cons show ?thesis by (simp add: process_def)
    qed
  qed
qed

lemma process_no_polarity_error: "process s vals \<noteq> Inl PolarityError"
proof (cases "\<exists>L M R. vals = [L, M, R]")
  case True
  then show ?thesis using process_triple_error by fastforce
next
  case False
  then have "process s vals = Inl UnpackError" by (intro process_not_triple) blast
  then show ?thesis by simp
qed

text \<open>
  Claim C7. Constructing the interpreter fails with the polarity error exactly when the
  lowercased polarity is neither \<^verbatim>\<open>dark\<close> nor \<^verbatim>\<open>light\<close>, and fails with no other
  error. For a recognised polarity the construction succeeds, stores the lowercased
  polarity, and \<open>process\<close> on the constructed interpreter never fails with the polarity
  error, whatever it is given; on three readings it returns.
\<close>

theorem GrayscaleInterpreter_init_polarity:
  "(GrayscaleInterpreter_init sens pol ab a th = Inl PolarityError
      \<longleftrightarrow> lower pol \<noteq> ''dark'' \<and> lower pol \<noteq> ''light'')
   \<and> (\<forall>e. GrayscaleInterpreter_init sens pol ab a th = Inl e \<longrightarrow> e = PolarityError)
   \<and> (lower pol = ''dark'' \<or> lower pol = ''light'' \<longrightarrow>
        (\<exists>s. GrayscaleInterpreter_init sens pol ab a th = Inr s
           \<and> polarity s = lower pol
           \<and> (\<forall>vals. process s vals \<noteq> Inl PolarityError)
           \<and> (\<forall>L M R. \<exists>r s'. process s [L, M, R] = Inr (r, s'))))"
proof (cases "lower pol = ''dark'' \<or> lower pol = ''light''")
  case False
  then show ?thesis by (simp add: GrayscaleInterpreter_init_def)
next
  case True
  define s where "s = \<lparr>sensitivity = sens, polarity = lower pol, auto_baseline = ab, alpha = a,
     baseline = None, thresh = th\<rparr>"
  from True have init: "GrayscaleInterpreter_init sens pol ab a th = Inr s"
    by (auto simp: GrayscaleInterpreter_init_def s_def)
  have wf: "baseline_wf s" by (simp add: baseline_wf_def s_def)
  have ret: "\<exists>r s'. process s [L, M, R] = Inr (r, s')" for L M R
    using process_refines_spec[OF wf, of L M R] by blast
  have pol: "polarity s = lower pol" by (simp add: s_def)
  from True init pol ret process_no_polarity_error show ?thesis by auto
qed

lemma lower_DARK: "lower ''Dark'' = ''dark''"
  by code_simp

lemma lower_blue: "lower ''blue'' = ''blue''"
  by code_simp

theorem GrayscaleInterpreter_init_polarity_witness:
  "lower ''Dark'' = ''dark''
   \<and> GrayscaleInterpreter_init 120 ''Dark'' True 0.02 850 = Inr level4_interp
   \<and> process level4_interp [200, 900, 900] \<noteq> Inl PolarityError
   \<and> lower ''blue'' \<noteq> ''dark'' \<and> lower ''blue'' \<noteq> ''light''
   \<and> GrayscaleInterpreter_init 120 ''blue'' True 0.02 850 = Inl PolarityError"
proof -
  have init: "GrayscaleInterpreter_init 120 ''Dark'' True 0.02 850 = Inr level4_interp"
    by (simp add: GrayscaleInterpreter_init_def lower_DARK level4_interp_def)
  from GrayscaleInterpreter_init_polarity[of 120 "''Dark''" True "0.02" 850] lower_DARK
  obtain s where "GrayscaleInterpreter_init 120 ''Dark'' True 0.02 850 = Inr s"
    and "\<forall>vals. process s vals \<noteq> Inl PolarityError" by auto
  with init have ok: "process level4_interp [200, 900, 900] \<noteq> Inl PolarityError" by simp
  have nb: "lower ''blue'' \<noteq> ''dark''" "lower ''blue'' \<noteq> ''light''"
    by (simp_all add: lower_blue)
  with GrayscaleInterpreter_init_polarity[of 120 "''blue''" True "0.02" 850]
  have "GrayscaleInterpreter_init 120 ''blue'' True 0.02 850 = Inl PolarityError" by blast
  with lower_DARK init ok nb show ?thesis by blast
qed

subsection \<open>The recovery maneuver\<close>

lemma recover_loop_exit:
  "stop_is_set e (clock w) \<or> line_seen_thresh (get_grayscale_data e (clock w))
     \<or> clock w - t0 > RECOVER_MAX_TIME \<Longrightarrow> recover_loop e t0 w = w"
  by (subst recover_loop.simps) auto

lemma recover_loop_step:
  "\<not> stop_is_set e (clock w) \<Longrightarrow> \<not> line_seen_thresh (get_grayscale_data e (clock w))
     \<Longrightarrow> \<not> clock w - t0 > RECOVER_MAX_TIME
     \<Longrightarrow> recover_loop e t0 w = recover_loop e t0 (sleep RECOVER_DT w)"
  by (subst recover_loop.simps) simp

lemma recover_loop_trace: "trace (recover_loop e t0 w) = trace w"
proof (induction e t0 w rule: recover_loop.induct)
  case (1 e t0 w)
  show ?case
  proof (cases "stop_is_set e (clock w) \<or> line_seen_thresh (get_grayscale_data e (clock w))
     \<or> clock w - t0 > RECOVER_MAX_TIME")
    case True
    then show ?thesis by (simp add: recover_loop_exit)
  next
    case False
    then have "recover_loop e t0 w = recover_loop e t0 (sleep RECOVER_DT w)"
      by (intro recover_loop_step) auto
    moreover have "trace (recover_loop e t0 (sleep RECOVER_DT w)) = trace (sleep RECOVER_DT w)"
      using False by (intro "1.IH") auto
    ultimately show ?thesis by (simp add: sleep_def)
  qed
qed

lemma recover_loop_exit_condition:
  "stop_is_set e (clock (recover_loop e t0 w))
   \<or> line_seen_thresh (get_grayscale_data e (clock (recover_loop e t0 w)))
   \<or> clock (recover_loop e t0 w) - t0 > RECOVER_MAX_TIME"
proof (induction e t0 w rule: recover_loop.induct)
  case (1 e t0 w)
  show ?case
  proof (cases "stop_is_set e (clock w) \<or> line_seen_thresh (get_grayscale_data e (clock w))
     \<or> clock w - t0 > RECOVER_MAX_TIME")
    case True
    then show ?thesis by (simp add: recover_loop_exit)
  next
    case False
    then have "recover_loop e t0 w = recover_loop e t0 (sleep RECOVER_DT w)"
      by (intro recover_loop_step) auto
    moreover have "stop_is_set e (clock (recover_loop e t0 (sleep RECOVER_DT w)))
       \<or> line_seen_thresh (get_grayscale_data e (clock (recover_loop e t0 (sleep RECOVER_DT w))))
       \<or> clock (recover_loop e t0 (sleep RECOVER_DT w)) - t0 > RECOVER_MAX_TIME"
      using False by (intro "1.IH") auto
    ultimately show ?thesis by simp
  qed
qed

text \<open>
  The loop polls at its start and every \<^verbatim>\<open>RECOVER_DT\<close> after it, and it is left at the
  first poll that leaves it: the world it returns is the world it was given with the
  clock advanced by \<open>k\<close> sleeps, where poll \<open>k\<close> leaves the loop and no poll before it
  does.
\<close>

lemma recover_loop_first_exit:
  "\<exists>k. recover_loop e t0 w = w\<lparr>clock := clock w + real k * RECOVER_DT\<rparr>
     \<and> loop_exits e t0 (clock w + real k * RECOVER_DT)
     \<and> (\<forall>j<k. \<not> loop_exits e t0 (clock w + real j * RECOVER_DT))"
proof (induction e t0 w rule: recover_loop.induct)
  case (1 e t0 w)
  show ?case
  proof (cases "loop_exits e t0 (clock w)")
    case True
    then have "recover_loop e t0 w = w"
      by (intro recover_loop_exit) (simp add: loop_exits_def)
    with True show ?thesis by (intro exI[of _ 0]) simp
  next
    case False
    then have ne: "\<not> stop_is_set e (clock w)"
      "\<not> line_seen_thresh (get_grayscale_data e (clock w))"
      "\<not> clock w - t0 > RECOVER_MAX_TIME"
      by (simp_all add: loop_exits_def)
    from "1.IH"[OF ne] obtain k where
      k1: "recover_loop e t0 (sleep RECOVER_DT w)
         = (sleep RECOVER_DT w)\<lparr>clock := clock (sleep RECOVER_DT w) + real k * RECOVER_DT\<rparr>"
      and k2: "loop_exits e t0 (clock (sleep RECOVER_DT w) + real k * RECOVER_DT)"
      and k3: "\<forall>j<k. \<not> loop_exits e t0 (clock (sleep RECOVER_DT w) + real j * RECOVER_DT)"
      by blast
    have step: "recover_loop e t0 w = recover_loop e t0 (sleep RECOVER_DT w)"
      by (rule recover_loop_step[OF ne])
    have c: "clock (sleep RECOVER_DT w) + real j * RECOVER_DT
        = clock w + real (Suc j) * RECOVER_DT" for j
      by (simp add: sleep_def algebra_simps)
    show ?thesis
    proof (intro exI[of _ "Suc k"] conjI allI impI)
      show "recover_loop e t0 w = w\<lparr>clock := clock w + real (Suc k) * RECOVER_DT\<rparr>"
        unfolding step k1 c by (simp add: sleep_def)
      show "loop_exits e t0 (clock w + real (Suc k) * RECOVER_DT)"
        using k2 unfolding c .
      fix j
      assume j: "j < Suc k"
      show "\<not> loop_exits e t0 (clock w + real j * RECOVER_DT)"
      proof (cases j)
        case 0
        with False show ?thesis by simp
      next
        case (Suc i)
        with j have "i < k" by simp
        with k3 have "\<not> loop_exits e t0 (clock (sleep RECOVER_DT w) + real i * RECOVER_DT)"
          by blast
        then show ?thesis unfolding c Suc .
      qed
    qed
  qed
qed

lemma recover_clock:
  "clock (recover_reverse_until_line e w)
     = clock (recover_loop e (clock w + 0.15)
         (backward REV_POWER (set_dir_servo_angle RECOVER_STEER (sleep 0.15 (px_stop w))))) + 0.1"
  by (simp add: recover_reverse_until_line_def Let_def sleep_def px_stop_def
      set_dir_servo_angle_def backward_def)

lemma recover_trace:
  "trace (recover_reverse_until_line e w)
     = trace w @ [Stop, SetDirServoAngle RECOVER_STEER, Backward REV_POWER, Stop]"
  by (simp add: recover_reverse_until_line_def Let_def sleep_def px_stop_def
      set_dir_servo_angle_def backward_def recover_loop_trace)

lemma recover_start_clock:
  "clock (backward REV_POWER (set_dir_servo_angle RECOVER_STEER (sleep 0.15 (px_stop w))))
     = clock w + 0.15"
  by (simp add: sleep_def px_stop_def set_dir_servo_angle_def backward_def)

lemma recover_unfold:
  "recover_reverse_until_line e w
     = sleep 0.1 (px_stop (recover_loop e (clock w + 0.15)
         (backward REV_POWER (set_dir_servo_angle RECOVER_STEER (sleep 0.15 (px_stop w))))))"
  unfolding recover_reverse_until_line_def Let_def recover_start_clock ..

text \<open>
  Claim C4, amended. In the model, where only \<^verbatim>\<open>sleep\<close> advances the clock, the recovery
  maneuver always returns (its loop is a total function). Let \<open>t0\<close> be the time read
  before the loop, 0.15 after the call. There is a number \<open>k\<close> of sleeps of the loop
  such that
  \<^item> the maneuver returns at \<open>t0 + k * RECOVER_DT + 0.1\<close>: the loop is left at
    \<open>t1 = t0 + k * RECOVER_DT\<close>;
  \<^item> the commands it issues are \<^verbatim>\<open>stop\<close> at the time of the call, the recovery steering
    angle and \<^verbatim>\<open>backward\<close> at \<open>t0\<close>, and \<^verbatim>\<open>stop\<close> at \<open>t1\<close>: the last command
    before it returns is a stop, issued when the loop is left and not before;
  \<^item> the poll at \<open>t1\<close> leaves the loop (the stop event is set, or the line is seen, or the
    elapsed time exceeds \<^verbatim>\<open>RECOVER_MAX_TIME\<close>) and no poll before it does: the polls are
    at \<open>t0 + j * RECOVER_DT\<close>, and the loop is left at the first of them at which the stop
    event is set or the line is seen, if it was not left before;
  \<^item> \<open>t1 \<le> t0 + RECOVER_MAX_TIME + RECOVER_DT\<close>;
  \<^item> when the stop event is never set and the line never seen, the loop is left strictly
    after \<open>t0 + RECOVER_MAX_TIME\<close>.

  With the constants of the program and a call at time 0: when the line is never seen and
  the stop event never set the loop is left at 2.66 and the maneuver returns at 2.76;
  when the line is back from 0.5 on, at 0.5 and 0.6; when the stop event is set from 1
  on, at 1 and 1.1.
\<close>

theorem recover_reverse_until_line_terminates:
  "\<exists>k. clock (recover_reverse_until_line e w) = clock w + 0.15 + real k * RECOVER_DT + 0.1
     \<and> trace (recover_reverse_until_line e w)
         = trace w @ [Stop, SetDirServoAngle RECOVER_STEER, Backward REV_POWER, Stop]
     \<and> stamps (recover_reverse_until_line e w)
         = stamps w @ [clock w, clock w + 0.15, clock w + 0.15,
                       clock w + 0.15 + real k * RECOVER_DT]
     \<and> loop_exits e (clock w + 0.15) (clock w + 0.15 + real k * RECOVER_DT)
     \<and> (\<forall>j<k. \<not> loop_exits e (clock w + 0.15) (clock w + 0.15 + real j * RECOVER_DT))
     \<and> (\<forall>j. stop_is_set e (clock w + 0.15 + real j * RECOVER_DT)
            \<or> line_seen_thresh (get_grayscale_data e (clock w + 0.15 + real j * RECOVER_DT))
            \<longrightarrow> k \<le> j)
     \<and> real k * RECOVER_DT \<le> RECOVER_MAX_TIME + RECOVER_DT
     \<and> ((\<forall>t. \<not> stop_is_set e t \<and> \<not> line_seen_thresh (get_grayscale_data e t))
          \<longrightarrow> RECOVER_MAX_TIME < real k * RECOVER_DT)"
proof -
  define w1 where "w1 = backward REV_POWER (set_dir_servo_angle RECOVER_STEER (sleep 0.15 (px_stop w)))"
  define t0 where "t0 = clock w + 0.15"
  have c1: "clock w1 = t0" unfolding w1_def t0_def by (rule recover_start_clock)
  have tr1: "trace w1 = trace w @ [Stop, SetDirServoAngle RECOVER_STEER, Backward REV_POWER]"
    by (simp add: w1_def sleep_def px_stop_def set_dir_servo_angle_def backward_def)
  have st1: "stamps w1 = stamps w @ [clock w, t0, t0]"
    by (simp add: w1_def t0_def sleep_def px_stop_def set_dir_servo_angle_def backward_def)
  have unfold: "recover_reverse_until_line e w = sleep 0.1 (px_stop (recover_loop e t0 w1))"
    unfolding w1_def t0_def by (rule recover_unfold)
  from recover_loop_first_exit[of e t0 w1] obtain k where
    k1: "recover_loop e t0 w1 = w1\<lparr>clock := t0 + real k * RECOVER_DT\<rparr>"
    and k2: "loop_exits e t0 (t0 + real k * RECOVER_DT)"
    and k3: "\<forall>j<k. \<not> loop_exits e t0 (t0 + real j * RECOVER_DT)"
    unfolding c1 by blast
  have clk: "clock (recover_reverse_until_line e w) = t0 + real k * RECOVER_DT + 0.1"
    by (simp add: unfold k1 sleep_def px_stop_def)
  have tr: "trace (recover_reverse_until_line e w)
         = trace w @ [Stop, SetDirServoAngle RECOVER_STEER, Backward REV_POWER, Stop]"
    by (simp add: unfold k1 tr1 sleep_def px_stop_def)
  have st: "stamps (recover_reverse_until_line e w)
         = stamps w @ [clock w, t0, t0, t0 + real k * RECOVER_DT]"
    by (simp add: unfold k1 st1 sleep_def px_stop_def)
  have first: "k \<le> j"
    if "stop_is_set e (t0 + real j * RECOVER_DT)
        \<or> line_seen_thresh (get_grayscale_data e (t0 + real j * RECOVER_DT))" for j
  proof (rule ccontr)
    assume "\<not> k \<le> j"
    then have "j < k" by simp
    with k3 have "\<not> loop_exits e t0 (t0 + real j * RECOVER_DT)" by blast
    with that show False by (simp add: loop_exits_def)
  qed
  have bound: "real k * RECOVER_DT \<le> RECOVER_MAX_TIME + RECOVER_DT"
  proof (cases k)
    case 0
    then show ?thesis by (simp add: RECOVER_MAX_TIME_def RECOVER_DT_def)
  next
    case (Suc j)
    then have "j < k" by simp
    with k3 have "\<not> loop_exits e t0 (t0 + real j * RECOVER_DT)" by blast
    then have "real j * RECOVER_DT \<le> RECOVER_MAX_TIME" by (simp add: loop_exits_def)
    then show ?thesis unfolding Suc by (simp add: algebra_simps)
  qed
  have late: "RECOVER_MAX_TIME < real k * RECOVER_DT"
    if "\<forall>t. \<not> stop_is_set e t \<and> \<not> line_seen_thresh (get_grayscale_data e t)"
    using k2 that by (simp add: loop_exits_def)
  from clk tr st k2 k3 first bound late show ?thesis
    unfolding t0_def by blast
qed

lemma env_lost_never:
  "\<not> stop_is_set env_lost t \<and> \<not> line_seen_thresh (get_grayscale_data env_lost t)"
  by (simp add: env_lost_def line_seen_thresh_def lower_POLARITY THRESH_def)

lemma env_lost_exits:
  "loop_exits env_lost (clock world0 + 0.15) (clock world0 + 0.15 + real j * RECOVER_DT)
     \<longleftrightarrow> 250 < j"
proof -
  have "250 < real j \<longleftrightarrow> 250 < j" by linarith
  then show ?thesis
    by (simp add: loop_exits_def env_lost_never RECOVER_MAX_TIME_def RECOVER_DT_def)
qed

lemma env_back_exits:
  "loop_exits env_back (clock world0 + 0.15) (clock world0 + 0.15 + real j * RECOVER_DT)
     \<longleftrightarrow> 35 \<le> j"
proof -
  have "35 \<le> real j \<longleftrightarrow> 35 \<le> j" "250 < real j \<longrightarrow> 35 \<le> j" by linarith+
  then show ?thesis
    by (auto simp: loop_exits_def env_back_def world0_def line_seen_thresh_def lower_POLARITY
        THRESH_def RECOVER_MAX_TIME_def RECOVER_DT_def)
qed

lemma env_halt_exits:
  "loop_exits env_halt (clock world0 + 0.15) (clock world0 + 0.15 + real j * RECOVER_DT)
     \<longleftrightarrow> 85 \<le> j"
proof -
  have "85 \<le> real j \<longleftrightarrow> 85 \<le> j" "250 < real j \<longrightarrow> 85 \<le> j" by linarith+
  then show ?thesis
    by (auto simp: loop_exits_def env_halt_def world0_def line_seen_thresh_def lower_POLARITY
        THRESH_def RECOVER_MAX_TIME_def RECOVER_DT_def)
qed

theorem recover_reverse_until_line_terminates_witness:
  "clock (recover_reverse_until_line env_lost world0) = 2.76
   \<and> trace (recover_reverse_until_line env_lost world0)
       = [Stop, SetDirServoAngle 0, Backward 30, Stop]
   \<and> stamps (recover_reverse_until_line env_lost world0) = [0, 0.15, 0.15, 2.66]
   \<and> clock (recover_reverse_until_line env_back world0) = 0.6
   \<and> trace (recover_reverse_until_line env_back world0)
       = [Stop, SetDirServoAngle 0, Backward 30, Stop]
   \<and> stamps (recover_reverse_until_line env_back world0) = [0, 0.15, 0.15, 0.5]
   \<and> clock (recover_reverse_until_line env_halt world0) = 1.1
   \<and> stamps (recover_reverse_until_line env_halt world0) = [0, 0.15, 0.15, 1]"
proof -
  from recover_reverse_until_line_terminates[of env_lost world0] obtain k where
    clk: "clock (recover_reverse_until_line env_lost world0)
        = clock world0 + 0.15 + real k * RECOVER_DT + 0.1"
    and tr: "trace (recover_reverse_until_line env_lost world0)
        = trace world0 @ [Stop, SetDirServoAngle RECOVER_STEER, Backward REV_POWER, Stop]"
    and st: "stamps (recover_reverse_until_line env_lost world0)
        = stamps world0 @ [clock world0, clock world0 + 0.15, clock world0 + 0.15,
                           clock world0 + 0.15 + real k * RECOVER_DT]"
    and ex: "loop_exits env_lost (clock world0 + 0.15) (clock world0 + 0.15 + real k * RECOVER_DT)"
    and mn: "\<forall>j<k. \<not> loop_exits env_lost (clock world0 + 0.15)
        (clock world0 + 0.15 + real j * RECOVER_DT)"
    by blast
  from ex have "250 < k" by (simp only: env_lost_exits)
  moreover have "k \<le> 251"
  proof (rule ccontr)
    assume "\<not> k \<le> 251"
    then have "251 < k" by simp
    with mn have "\<not> loop_exits env_lost (clock world0 + 0.15)
        (clock world0 + 0.15 + real (251::nat) * RECOVER_DT)" by blast
    then show False by (simp only: env_lost_exits)
  qed
  ultimately have k: "k = 251" by simp
  from recover_reverse_until_line_terminates[of env_back world0] obtain i where
    clk': "clock (recover_reverse_until_line env_back world0)
        = clock world0 + 0.15 + real i * RECOVER_DT + 0.1"
    and tr': "trace (recover_reverse_until_line env_back world0)
        = trace world0 @ [Stop, SetDirServoAngle RECOVER_STEER, Backward REV_POWER, Stop]"
    and st': "stamps (recover_reverse_until_line env_back world0)
        = stamps world0 @ [clock world0, clock world0 + 0.15, clock world0 + 0.15,
                           clock world0 + 0.15 + real i * RECOVER_DT]"
    and ex': "loop_exits env_back (clock world0 + 0.15) (clock world0 + 0.15 + real i * RECOVER_DT)"
    and mn': "\<forall>j<i. \<not> loop_exits env_back (clock world0 + 0.15)
        (clock world0 + 0.15 + real j * RECOVER_DT)"
    by blast
  from ex' have "35 \<le> i" by (simp only: env_back_exits)
  moreover have "i \<le> 35"
  proof (rule ccontr)
    assume "\<not> i \<le> 35"
    then have "35 < i" by simp
    with mn' have "\<not> loop_exits env_back (clock world0 + 0.15)
        (clock world0 + 0.15 + real (35::nat) * RECOVER_DT)" by blast
    then show False by (simp only: env_back_exits)
  qed
  ultimately have i: "i = 35" by simp
  from recover_reverse_until_line_terminates[of env_halt world0] obtain n where
    clk'': "clock (recover_reverse_until_line env_halt world0)
        = clock world0 + 0.15 + real n * RECOVER_DT + 0.1"
    and st'': "stamps (recover_reverse_until_line env_halt world0)
        = stamps world0 @ [clock world0, clock world0 + 0.15, clock world0 + 0.15,
                           clock world0 + 0.15 + real n * RECOVER_DT]"
    and ex'': "loop_exits env_halt (clock world0 + 0.15) (clock world0 + 0.15 + real n * RECOVER_DT)"
    and mn'': "\<forall>j<n. \<not> loop_exits env_halt (clock world0 + 0.15)
        (clock world0 + 0.15 + real j * RECOVER_DT)"
    by blast
  from ex'' have "85 \<le> n" by (simp only: env_halt_exits)
  moreover have "n \<le> 85"
  proof (rule ccontr)
    assume "\<not> n \<le> 85"
    then have "85 < n" by simp
    with mn'' have "\<not> loop_exits env_halt (clock world0 + 0.15)
        (clock world0 + 0.15 + real (85::nat) * RECOVER_DT)" by blast
    then show False by (simp only: env_halt_exits)
  qed
  ultimately have n: "n = 85" by simp
  from clk tr st clk' tr' st' clk'' st'' show ?thesis
    unfolding k i n
    by (simp add: world0_def RECOVER_DT_def RECOVER_STEER_def REV_POWER_def)
qed

text \<open>
  Claim C4, as stated, fails: with no reacquisition and no stop event, the maneuver does
  not return at or before \<open>t0 + RECOVER_MAX_TIME\<close>. The time-out leaves the loop only once
  the elapsed time exceeds \<^verbatim>\<open>RECOVER_MAX_TIME\<close>; this holds for the return of
  \<^verbatim>\<open>recover_reverse_until_line\<close> and already for its loop started at time 0.
\<close>

theorem recover_returns_after_max_time:
  "\<not> clock (recover_reverse_until_line env_lost world0) \<le> (clock world0 + 0.15) + RECOVER_MAX_TIME
   \<and> \<not> clock (recover_loop env_lost 0 world0) \<le> 0 + RECOVER_MAX_TIME"
proof -
  have "clock (recover_loop env_lost 0 world0) - 0 > RECOVER_MAX_TIME"
    using recover_loop_exit_condition[of env_lost 0 world0] env_lost_never by blast
  moreover have "clock (recover_loop env_lost (clock world0 + 0.15)
         (backward REV_POWER (set_dir_servo_angle RECOVER_STEER (sleep 0.15 (px_stop world0)))))
       - (clock world0 + 0.15) > RECOVER_MAX_TIME"
    using recover_loop_exit_condition[of env_lost "clock world0 + 0.15"
        "backward REV_POWER (set_dir_servo_angle RECOVER_STEER (sleep 0.15 (px_stop world0)))"]
      env_lost_never by blast
  ultimately show ?thesis unfolding recover_clock by simp
qed

subsection \<open>Losing the line\<close>

lemma spec_offset_None:
  "spec_offset pol sens T L M R = None \<longleftrightarrow>
     (spec_strength pol T L + spec_strength pol T M + spec_strength pol T R < 1 / 10 ^ 6
      \<and> max \<bar>L - M\<bar> \<bar>M - R\<bar> < sens)"
  unfolding spec_offset_def spec_edge_detected_def by (simp add: not_le)

lemma process_level4_lost:
  "process level4_interp [1000, 1000, 1000]
     = Inr (None, level4_interp\<lparr>baseline := Some [1000, 1000, 1000]\<rparr>)"
  by (simp add: process_def update_baseline_def level4_interp_def Let_def)

lemma controller_cycle_lost:
  "controller_cycle e (Bus_write bus (Some (OffsetMessage t None))) (w, c, p)
     = Inr (sleep CONTROL_DT (recover_reverse_until_line e (px_stop w)), reset c, 0)"
  by (simp add: controller_cycle_def Bus_read_def Bus_write_def Let_def)

lemma controller_cycle_lost_trace:
  "trace (sleep CONTROL_DT (recover_reverse_until_line e (px_stop w)))
     = trace w @ [Stop, Stop, SetDirServoAngle RECOVER_STEER, Backward REV_POWER, Stop]"
  by (simp add: sleep_def recover_trace px_stop_def)

lemma interpreter_cycle_lost:
  "interpreter_cycle (Bus_write abus (Some (ADCMessage t [1000, 1000, 1000])))
       (level4_interp, None, obus, w)
     = Inr (level4_interp\<lparr>baseline := Some [1000, 1000, 1000]\<rparr>, Some t,
            Bus_write obus (Some (OffsetMessage (clock w) None)), sleep INTERP_DT w)"
  by (simp add: interpreter_cycle_def Bus_read_def Bus_write_def process_level4_lost)

text \<open>
  Claim C3. For an interpreter whose baseline is \<^verbatim>\<open>None\<close> or three channels,
  \<open>process\<close> returns \<^const>\<open>None\<close> (line lost) exactly when the total strength is
  below \<open>1 / 10 ^ 6\<close> and the larger of \<open>|L - M|\<close> and \<open>|M - R|\<close> is below the
  sensitivity. In particular the triple \<open>(1000, 1000, 1000)\<close> with threshold 850, polarity
  dark and sensitivity 120 gives \<^const>\<open>None\<close>; a round of the interpreter loop that
  reads this triple publishes an offset message holding \<^const>\<open>None\<close>; and a round of
  the controller loop that reads an offset message holding \<^const>\<open>None\<close> stops the
  robot, runs the recovery maneuver, resets the controller and sets the smoothed offset to
  0: the commands it issues are stop, stop, the recovery steering angle, backward, stop.
\<close>

theorem line_lost_enters_recovery:
  assumes "baseline_wf s"
  shows "(process_returns s [L, M, R] = Inr None \<longleftrightarrow>
           (spec_strength (polarity s) (thresh s) L + spec_strength (polarity s) (thresh s) M
              + spec_strength (polarity s) (thresh s) R < 1 / 10 ^ 6
            \<and> max \<bar>L - M\<bar> \<bar>M - R\<bar> < sensitivity s))
    \<and> process_returns level4_interp [1000, 1000, 1000] = Inr None
    \<and> interpreter_cycle (Bus_write abus (Some (ADCMessage t [1000, 1000, 1000])))
          (level4_interp, None, obus, iw)
        = Inr (level4_interp\<lparr>baseline := Some [1000, 1000, 1000]\<rparr>, Some t,
               Bus_write obus (Some (OffsetMessage (clock iw) None)), sleep INTERP_DT iw)
    \<and> controller_cycle e (Bus_write obus (Some (OffsetMessage t' None))) (w, c, p)
        = Inr (sleep CONTROL_DT (recover_reverse_until_line e (px_stop w)), reset c, 0)
    \<and> trace (sleep CONTROL_DT (recover_reverse_until_line e (px_stop w)))
        = trace w @ [Stop, Stop, SetDirServoAngle RECOVER_STEER, Backward REV_POWER, Stop]"
proof -
  have "process_returns s [L, M, R] = Inr None \<longleftrightarrow>
      spec_offset (polarity s) (sensitivity s) (thresh s) L M R = None"
    by (simp add: process_returns_spec[OF assms])
  then have iff: "process_returns s [L, M, R] = Inr None \<longleftrightarrow>
           (spec_strength (polarity s) (thresh s) L + spec_strength (polarity s) (thresh s) M
              + spec_strength (polarity s) (thresh s) R < 1 / 10 ^ 6
            \<and> max \<bar>L - M\<bar> \<bar>M - R\<bar> < sensitivity s)"
    by (simp only: spec_offset_None)
  have lost: "process_returns level4_interp [1000, 1000, 1000] = Inr None"
    by (simp add: process_returns_def process_level4_lost)
  from iff lost interpreter_cycle_lost controller_cycle_lost controller_cycle_lost_trace
  show ?thesis by blast
qed

theorem line_lost_enters_recovery_witness:
  "baseline_wf level4_interp
   \<and> process_returns level4_interp [1000, 1000, 1000] = Inr None
   \<and> process_returns level4_interp [200, 900, 900] \<noteq> Inr None
   \<and> controller_cycle env_lost (Bus_write (Bus_init None) (Some (OffsetMessage 0 None)))
        (world0, level4_controller, 0)
       = Inr (sleep CONTROL_DT (recover_reverse_until_line env_lost (px_stop world0)),
              reset level4_controller, 0)
   \<and> trace (sleep CONTROL_DT (recover_reverse_until_line env_lost (px_stop world0)))
       = [Stop, Stop, SetDirServoAngle 0, Backward 30, Stop]"
proof -
  note inst = line_lost_enters_recovery[OF level4_interp_wf, of 200 900 900 "Bus_init None" 0
      "Bus_init None" world0 env_lost 0 world0 level4_controller 0]
  have "process_returns level4_interp [200, 900, 900] \<noteq> Inr None"
    by (simp add: process_returns_def process_level4_left)
  with inst level4_interp_wf show ?thesis
    by (simp add: world0_def RECOVER_STEER_def REV_POWER_def)
qed

end
